theory Spec2Isabelle
  imports Complex_Main
begin

section \<open>Quality vocabulary\<close>

text \<open>
  \<^verbatim>\<open>qualityMap\<close> and \<^verbatim>\<open>QUALITY_ORDER\<close> of script.js. Quality levels stay strings, as in
  the source: the player may report names outside the seven of \<^verbatim>\<open>QUALITY_ORDER\<close>.

  \<^verbatim>\<open>qualityMap\<close> is an object literal, so \<^verbatim>\<open>qualityMap[q]\<close> finds, besides the seven keys
  of the literal, every property the literal inherits from \<^verbatim>\<open>Object.prototype\<close>: eleven
  built-in functions and, under \<^verbatim>\<open>__proto__\<close>, the prototype object itself. A value is
  therefore a string, a built-in function (kept by its name) or the prototype object.
\<close>

datatype js_value = Str string | BuiltinFunction string | PrototypeObject

definition objectPrototype :: "(string \<times> js_value) list" where
  "objectPrototype =
     [(''constructor'', BuiltinFunction ''Object''),
      (''__defineGetter__'', BuiltinFunction ''__defineGetter__''),
      (''__defineSetter__'', BuiltinFunction ''__defineSetter__''),
      (''hasOwnProperty'', BuiltinFunction ''hasOwnProperty''),
      (''__lookupGetter__'', BuiltinFunction ''__lookupGetter__''),
      (''__lookupSetter__'', BuiltinFunction ''__lookupSetter__''),
      (''isPrototypeOf'', BuiltinFunction ''isPrototypeOf''),
      (''propertyIsEnumerable'', BuiltinFunction ''propertyIsEnumerable''),
      (''toString'', BuiltinFunction ''toString''),
      (''valueOf'', BuiltinFunction ''valueOf''),
      (''__proto__'', PrototypeObject),
      (''toLocaleString'', BuiltinFunction ''toLocaleString'')]"

definition qualityMap :: "string \<rightharpoonup> js_value" where
  "qualityMap =
     map_of
       ([(''tiny'', Str ''144p''), (''small'', Str ''240p''), (''medium'', Str ''360p''),
         (''large'', Str ''480p''), (''hd720'', Str ''720p''), (''hd1080'', Str ''1080p''),
         (''highres'', Str ''1080p+'')] @ objectPrototype)"

definition QUALITY_ORDER :: "string list" where
  "QUALITY_ORDER =
     [''tiny'', ''small'', ''medium'', ''large'', ''hd720'', ''hd1080'', ''highres'']"

text \<open>
  Truthiness of a value, and the text a template literal shows for it: a string shows
  itself, a built-in function its source text as V8 prints it, the prototype object
  \<^verbatim>\<open>[object Object]\<close>.
\<close>

fun truthy :: "js_value \<Rightarrow> bool" where
  "truthy (Str t) = (t \<noteq> [])"
| "truthy (BuiltinFunction f) = True"
| "truthy PrototypeObject = True"

fun toText :: "js_value \<Rightarrow> string" where
  "toText (Str t) = t"
| "toText (BuiltinFunction f) = ''function '' @ f @ ''() { [native code] }''"
| "toText PrototypeObject = ''[object Object]''"

text \<open>
  JavaScript's \<^verbatim>\<open>a || d\<close> on a value that is a string or \<^verbatim>\<open>undefined\<close>: the empty
  string and \<^verbatim>\<open>undefined\<close> are falsy.
\<close>

definition orElse :: "string option \<Rightarrow> string \<Rightarrow> string" where
  "orElse v d = (case v of None \<Rightarrow> d | Some x \<Rightarrow> if x = [] then d else x)"

text \<open>
  The text shown for \<^verbatim>\<open>a || d\<close> with \<^verbatim>\<open>a\<close> the result of a lookup in \<^verbatim>\<open>qualityMap\<close>
  (\<open>None\<close> is \<^verbatim>\<open>undefined\<close>) and \<^verbatim>\<open>d\<close> a string.
\<close>

definition orText :: "js_value option \<Rightarrow> string \<Rightarrow> string" where
  "orText v d = (case v of None \<Rightarrow> d | Some x \<Rightarrow> if truthy x then toText x else d)"

text \<open>The text shown for \<^verbatim>\<open>qualityMap[q] || q\<close>, with \<^verbatim>\<open>q\<close> a string.\<close>

definition mapOrSelf :: "string \<Rightarrow> string" where
  "mapOrSelf q = orText (qualityMap q) q"

text \<open>
  The text shown for \<^verbatim>\<open>qualityMap[q] || q || 'Auto'\<close>, with \<^verbatim>\<open>q\<close> a string or
  \<^verbatim>\<open>undefined\<close>.
\<close>

definition readableOf :: "string option \<Rightarrow> string" where
  "readableOf q =
     (case q of None \<Rightarrow> ''Auto''
      | Some n \<Rightarrow> orElse (Some (orText (qualityMap n) n)) ''Auto'')"

section \<open>The external player and the page state\<close>

text \<open>
  The embedded player is a black box. Its record holds what each query answers at the
  moment: \<open>None\<close> stands for a call that throws or yields \<^verbatim>\<open>undefined\<close> (for the
  available levels also for a value that is not an array). Positions are seconds.
\<close>

record yt_player =
  availableQualityLevels :: "string list option"
  playbackQuality :: "string option"
  currentTime :: "rat option"

datatype player_state = UNSTARTED | ENDED | PLAYING | PAUSED | BUFFERING | CUED

datatype command = SetPlaybackQuality string | PlayVideo | PauseVideo | Destroy

text \<open>The closures handed to \<^verbatim>\<open>setTimeout\<close> and \<^verbatim>\<open>setInterval\<close>, one constructor each.\<close>

datatype callback =
    PauseDestroyCb player_state
  | RetryCb
  | MonitorCb
  | ReadyCb
  | SimStatusCb string
  | SimEndCb string

record timer =
  tid :: nat
  due :: nat
  period :: "nat option"
  cb :: callback

datatype container = Empty | Facade "string option" rat | PlayerTarget

datatype js_error = ReferenceError string

record state =
  player :: "yt_player option"
  currentVideoId :: "string option"
  lowBandwidthMode :: bool
  qualityRetryTimer :: "nat option"
  qualityRetryCount :: nat
  qualityMonitorTimer :: "nat option"
  lastPlaybackTime :: rat
  pauseDestroyTimer :: "nat option"
  playerContainer :: container
  simulateOverlay :: bool
  pauseOverlay :: bool
  buttonHidden :: bool
  buttonDisabled :: bool
  buttonText :: string
  statusText :: string
  clock :: nat
  timers :: "timer list"
  nextTimerId :: nat
  commands :: "command list"
  alerts :: "string list"
  uncaught :: "js_error list"

section \<open>Queries on the player\<close>

definition safeGetPlaybackQuality :: "state \<Rightarrow> string option" where
  "safeGetPlaybackQuality s = (case player s of None \<Rightarrow> None | Some p \<Rightarrow> playbackQuality p)"

definition safeGetAvailableQualityLevels :: "state \<Rightarrow> string list option" where
  "safeGetAvailableQualityLevels s =
     (case player s of None \<Rightarrow> None | Some p \<Rightarrow> availableQualityLevels p)"

definition safeGetCurrentTime :: "state \<Rightarrow> rat option" where
  "safeGetCurrentTime s = (case player s of None \<Rightarrow> None | Some p \<Rightarrow> currentTime p)"

definition getLowestAvailableQuality :: "state \<Rightarrow> string option" where
  "getLowestAvailableQuality s =
     (case safeGetAvailableQualityLevels s of
        None \<Rightarrow> None
      | Some levels \<Rightarrow>
          if levels = [] then None
          else (case find (\<lambda>q. q \<in> set levels) QUALITY_ORDER of
                  Some q \<Rightarrow> Some q
                | None \<Rightarrow> Some (last levels)))"

text \<open>\<^verbatim>\<open>getLowestAvailableQuality() || 'small'\<close>, the target of every enforcement step.\<close>

definition targetQuality :: "state \<Rightarrow> string" where
  "targetQuality s = orElse (getLowestAvailableQuality s) ''small''"

section \<open>Timers\<close>

text \<open>
  The browser's timer queue. A handle is the timer's id; ids are positive and never
  reused, so a handle variable is truthy precisely when it is \<open>Some id\<close>. Clearing an id
  that is no longer queued does nothing.
\<close>

definition setTimer :: "callback \<Rightarrow> nat \<Rightarrow> nat option \<Rightarrow> state \<Rightarrow> nat \<times> state" where
  "setTimer c delay per s =
     (nextTimerId s,
      s\<lparr>timers := timers s @ [\<lparr>tid = nextTimerId s, due = clock s + delay, period = per, cb = c\<rparr>],
        nextTimerId := Suc (nextTimerId s)\<rparr>)"

definition clearTimer :: "nat \<Rightarrow> state \<Rightarrow> state" where
  "clearTimer i s = s\<lparr>timers := filter (\<lambda>t. tid t \<noteq> i) (timers s)\<rparr>"

section \<open>Commands to the player\<close>

text \<open>
  \<^verbatim>\<open>try { player.f(...) } catch {}\<close>: with no player object the property access throws and
  is swallowed, so nothing is sent; with a player the command is issued (whatever the
  player then does with it).
\<close>

definition send :: "command \<Rightarrow> state \<Rightarrow> state" where
  "send c s = (case player s of None \<Rightarrow> s | Some p \<Rightarrow> s\<lparr>commands := commands s @ [c]\<rparr>)"

section \<open>Facade and player creation\<close>

text \<open>
  Writing \<^verbatim>\<open>playerContainer.innerHTML\<close> replaces all children of the container, the
  overlays appended to it included.
\<close>

definition createFacade :: "string option \<Rightarrow> rat \<Rightarrow> state \<Rightarrow> state" where
  "createFacade videoId startSeconds s =
     s\<lparr>playerContainer := Facade videoId startSeconds, simulateOverlay := False,
       pauseOverlay := False\<rparr>"

definition createPlayer :: "yt_player \<Rightarrow> state \<Rightarrow> state" where
  "createPlayer p s =
     s\<lparr>playerContainer := PlayerTarget, simulateOverlay := False, pauseOverlay := False,
       player := Some p\<rparr>"

definition removePauseOverlay :: "state \<Rightarrow> state" where
  "removePauseOverlay s = s\<lparr>pauseOverlay := False\<rparr>"

definition createSimulateOverlay :: "state \<Rightarrow> state" where
  "createSimulateOverlay s = (if simulateOverlay s then s else s\<lparr>simulateOverlay := True\<rparr>)"

section \<open>Quality enforcement\<close>

definition clearQualityRetry :: "state \<Rightarrow> state" where
  "clearQualityRetry s =
     (case qualityRetryTimer s of
        None \<Rightarrow> s
      | Some i \<Rightarrow> (clearTimer i s)\<lparr>qualityRetryTimer := None\<rparr>)"

definition clearQualityMonitor :: "state \<Rightarrow> state" where
  "clearQualityMonitor s =
     (case qualityMonitorTimer s of
        None \<Rightarrow> s
      | Some i \<Rightarrow> (clearTimer i s)\<lparr>qualityMonitorTimer := None\<rparr>)"

definition enforceLowQuality :: "state \<Rightarrow> state" where
  "enforceLowQuality s =
     (if player s = None then s
      else
        let s1 = clearQualityRetry s;
            target = targetQuality s1;
            s2 = s1\<lparr>statusText := ''Requesting lower quality ('' @ mapOrSelf target @ '')...''\<rparr>;
            s3 = send (SetPlaybackQuality target) s2;
            s4 = send PlayVideo s3;
            s5 = s4\<lparr>qualityRetryCount := 0\<rparr>;
            (i, s6) = setTimer RetryCb 1200 (Some 1200) s5
        in s6\<lparr>qualityRetryTimer := Some i\<rparr>)"

text \<open>The body of the retry interval of \<^verbatim>\<open>enforceLowQuality\<close>.\<close>

definition retryTick :: "state \<Rightarrow> state" where
  "retryTick s =
     (let s1 = s\<lparr>qualityRetryCount := Suc (qualityRetryCount s)\<rparr>;
          q = safeGetPlaybackQuality s1;
          desired = targetQuality s1
      in if q = Some desired then clearQualityRetry s1
         else
           let s2 = send (SetPlaybackQuality desired) s1
           in if 5 \<le> qualityRetryCount s2 then
                let s3 = clearQualityRetry s2;
                    finalQ = safeGetPlaybackQuality s3;
                    msgQ = readableOf finalQ
                in s3\<lparr>statusText :=
                       ''Targeted '' @ mapOrSelf desired @ ''; actual is '' @ msgQ
                         @ '' (YouTube may adapt).''\<rparr>
              else s2)"

text \<open>The body of the interval of \<^verbatim>\<open>startQualityMonitor\<close>.\<close>

definition monitorTick :: "state \<Rightarrow> state" where
  "monitorTick s =
     (if player s = None then s
      else
        let readable = readableOf (safeGetPlaybackQuality s)
        in if lowBandwidthMode s then
             s\<lparr>statusText :=
                 ''Applied: '' @ readable @ '' (target: '' @ mapOrSelf (targetQuality s) @ '')''\<rparr>
           else s\<lparr>statusText := ''Quality: '' @ readable\<rparr>)"

definition startQualityMonitor :: "state \<Rightarrow> state" where
  "startQualityMonitor s =
     (let s1 = clearQualityMonitor s;
          (i, s2) = setTimer MonitorCb 700 (Some 700) s1
      in s2\<lparr>qualityMonitorTimer := Some i\<rparr>)"

definition onPlayerQualityChange :: "string \<Rightarrow> state \<Rightarrow> state" where
  "onPlayerQualityChange newQuality s =
     (let readableQuality = orText (qualityMap newQuality) ''Auto'';
          s1 = s\<lparr>statusText := ''Video quality changed to: '' @ readableQuality\<rparr>
      in if lowBandwidthMode s1 then
           (if newQuality = targetQuality s1 then clearQualityRetry s1 else s1)
         else s1)"

definition toggleLowInternetMode :: "state \<Rightarrow> state" where
  "toggleLowInternetMode s =
     (if \<not> lowBandwidthMode s then
        let s1 = s\<lparr>lowBandwidthMode := True, buttonText := ''Disable Low Internet''\<rparr>
        in if player s1 \<noteq> None then
             let s2 = s1\<lparr>statusText :=
                          ''Low-internet mode ON. Targeting '' @ mapOrSelf (targetQuality s1) @ ''.''\<rparr>
             in startQualityMonitor (enforceLowQuality s2)
           else s1\<lparr>statusText := ''Low-internet mode ON. Will apply on playback.''\<rparr>
      else
        let s1 = s\<lparr>lowBandwidthMode := False\<rparr>;
            s2 = clearQualityMonitor (clearQualityRetry s1);
            s3 = send (SetPlaybackQuality ''default'') s2;
            s4 = s3\<lparr>buttonText := ''Simulate Low Internet''\<rparr>
        in if player s4 \<noteq> None then
             s4\<lparr>statusText :=
                  ''Low-internet mode OFF. Quality: '' @ readableOf (safeGetPlaybackQuality s4)\<rparr>
           else s4\<lparr>statusText := ''Low-internet mode OFF.''\<rparr>)"

section \<open>Player lifecycle\<close>

text \<open>
  \<^verbatim>\<open>lastPlaybackTime = safeGetCurrentTime() || lastPlaybackTime || 0\<close>: a number is falsy
  precisely when it is zero, \<^verbatim>\<open>undefined\<close> is falsy.
\<close>

definition capturedTime :: "state \<Rightarrow> rat" where
  "capturedTime s =
     (case safeGetCurrentTime s of
        Some t \<Rightarrow> if t \<noteq> 0 then t else if lastPlaybackTime s \<noteq> 0 then lastPlaybackTime s else 0
      | None \<Rightarrow> if lastPlaybackTime s \<noteq> 0 then lastPlaybackTime s else 0)"

text \<open>
  The closure armed by a paused, ended or cued signal; \<open>d\<close> is the \<^verbatim>\<open>event.data\<close> it
  captured.
\<close>

definition pauseDestroy :: "player_state \<Rightarrow> state \<Rightarrow> state" where
  "pauseDestroy d s =
     (let s1 = s\<lparr>lastPlaybackTime := capturedTime s\<rparr>;
          s2 = (if d = ENDED then s1\<lparr>lastPlaybackTime := 0\<rparr> else s1);
          s3 = send Destroy s2;
          s4 = s3\<lparr>player := None\<rparr>;
          s5 = createFacade (currentVideoId s4) (lastPlaybackTime s4) s4;
          s6 = s5\<lparr>buttonHidden := False\<rparr>
      in clearQualityMonitor (clearQualityRetry s6))"

definition onPlayerStateChange :: "player_state \<Rightarrow> state \<Rightarrow> state" where
  "onPlayerStateChange d s =
     (if d = PLAYING then
        let s1 = s\<lparr>buttonHidden := False\<rparr>;
            s2 = (if lowBandwidthMode s1 then enforceLowQuality s1 else s1);
            s3 = removePauseOverlay s2
        in (case pauseDestroyTimer s3 of
              None \<Rightarrow> s3
            | Some i \<Rightarrow> (clearTimer i s3)\<lparr>pauseDestroyTimer := None\<rparr>)
      else if d = PAUSED \<or> d = ENDED \<or> d = CUED then
        let s1 = (case pauseDestroyTimer s of None \<Rightarrow> s | Some i \<Rightarrow> clearTimer i s);
            (i, s2) = setTimer (PauseDestroyCb d) 350 None s1
        in s2\<lparr>pauseDestroyTimer := Some i\<rparr>
      else s)"

definition onPlayerReady :: "state \<Rightarrow> state" where
  "onPlayerReady s =
     (if lowBandwidthMode s then
        let target = targetQuality s;
            s1 = send PauseVideo s;
            s2 = send (SetPlaybackQuality target) s1
        in snd (setTimer ReadyCb 150 None s2)
      else s)"

text \<open>The closure deferred by \<^verbatim>\<open>onPlayerReady\<close>.\<close>

definition readyDeferred :: "state \<Rightarrow> state" where
  "readyDeferred s = startQualityMonitor (enforceLowQuality (send PlayVideo s))"

section \<open>The simulated sequence\<close>

text \<open>
  script.js calls \<^verbatim>\<open>removeSimulateOverlay\<close> in the last step of the sequence and declares
  no function of that name (its only overlay remover is \<^verbatim>\<open>removePauseOverlay\<close>), so the
  call raises a ReferenceError. The earlier draft of the script declares it; that
  version is \<open>removeSimulateOverlay_draft\<close>.
\<close>

definition removeSimulateOverlay :: "state \<Rightarrow> js_error + state" where
  "removeSimulateOverlay s = Inl (ReferenceError ''removeSimulateOverlay'')"

definition removeSimulateOverlay_draft :: "state \<Rightarrow> js_error + state" where
  "removeSimulateOverlay_draft s = Inr (s\<lparr>simulateOverlay := False\<rparr>)"

text \<open>
  The closure of the 3000 ms step, over the overlay remover in scope; \<open>originalText\<close>
  is the label it captured.
\<close>

definition simEndWith :: "(state \<Rightarrow> js_error + state) \<Rightarrow> string \<Rightarrow> state \<Rightarrow> js_error + state" where
  "simEndWith remove originalText s =
     (case remove s of
        Inl e \<Rightarrow> Inl e
      | Inr s1 \<Rightarrow>
          Inr (s1\<lparr>statusText := ''Video quality changed to: 240p (simulated)'',
                  buttonDisabled := False, buttonText := originalText\<rparr>))"

definition simEnd :: "string \<Rightarrow> state \<Rightarrow> js_error + state" where
  "simEnd = simEndWith removeSimulateOverlay"

definition simulateLowInternetExperience :: "state \<Rightarrow> state" where
  "simulateLowInternetExperience s =
     (let s1 = clearQualityRetry (s\<lparr>lowBandwidthMode := False\<rparr>);
          s2 = createSimulateOverlay s1;
          s3 = s2\<lparr>buttonDisabled := True\<rparr>;
          originalText = buttonText s3;
          s4 = s3\<lparr>buttonText := ''Simulating...''\<rparr>;
          s5 = s4\<lparr>statusText := ''Simulating low internet...''\<rparr>;
          s6 = snd (setTimer (SimStatusCb ''Diagnosing network...'') 700 None s5);
          s7 = snd (setTimer (SimStatusCb ''Bandwidth detected: 420 kbps (simulated)'') 1400 None s6);
          s8 = snd (setTimer (SimStatusCb ''Applying lower resolution: 240p (simulated)'') 2100 None s7)
      in snd (setTimer (SimEndCb originalText) 3000 None s8))"

section \<open>The event loop\<close>

text \<open>
  An uncaught exception ends the callback that raised it; what the callback wrote before
  stays, and the page goes on.
\<close>

definition runCallback :: "callback \<Rightarrow> state \<Rightarrow> state" where
  "runCallback c s =
     (case c of
        PauseDestroyCb d \<Rightarrow> pauseDestroy d s
      | RetryCb \<Rightarrow> retryTick s
      | MonitorCb \<Rightarrow> monitorTick s
      | ReadyCb \<Rightarrow> readyDeferred s
      | SimStatusCb msg \<Rightarrow> s\<lparr>statusText := msg\<rparr>
      | SimEndCb originalText \<Rightarrow>
          (case simEnd originalText s of
             Inl e \<Rightarrow> s\<lparr>uncaught := uncaught s @ [e]\<rparr>
           | Inr s1 \<Rightarrow> s1))"

text \<open>
  Firing the timer with id \<open>i\<close>: the clock reaches its due time, a timeout leaves the
  queue, an interval is queued again one period later, and then the callback runs (so a
  callback that clears its own interval removes it).
\<close>

definition reschedule :: "timer \<Rightarrow> timer list \<Rightarrow> timer list" where
  "reschedule t ts =
     (case period t of
        None \<Rightarrow> filter (\<lambda>u. tid u \<noteq> tid t) ts
      | Some p \<Rightarrow> map (\<lambda>u. if tid u = tid t then u\<lparr>due := due u + p\<rparr> else u) ts)"

definition fire :: "nat \<Rightarrow> state \<Rightarrow> state" where
  "fire i s =
     (case find (\<lambda>t. tid t = i) (timers s) of
        None \<Rightarrow> s
      | Some t \<Rightarrow>
          runCallback (cb t)
            (s\<lparr>clock := max (clock s) (due t), timers := reschedule t (timers s)\<rparr>))"

section \<open>Identifier extraction\<close>

text \<open>
  \<^verbatim>\<open>url.match(regex)\<close> for a regular expression without flags is a backtracking search:
  start positions from left to right, alternatives from left to right, a greedy
  quantifier longest first, a lazy one shortest first; the first complete match wins.
  The matcher below runs that search on the constructs the expression of
  \<^verbatim>\<open>getYouTubeID\<close> uses, with the rest of the match as a continuation. Strings are lists
  of 8-bit characters: the model covers inputs whose code units are below 256.
\<close>

datatype regex =
    Lit string
  | Cls "char \<Rightarrow> bool"
  | Seq regex regex
  | Alt regex regex
  | Opt regex
  | PlusG "char \<Rightarrow> bool"
  | StarL "char \<Rightarrow> bool"
  | Rep nat "char \<Rightarrow> bool"
  | Grp regex

fun greedy :: "(char \<Rightarrow> bool) \<Rightarrow> string \<Rightarrow> (string \<Rightarrow> 'a option) \<Rightarrow> 'a option" where
  "greedy c [] k = k []"
| "greedy c (x # xs) k =
     (if c x then (case greedy c xs k of Some r \<Rightarrow> Some r | None \<Rightarrow> k (x # xs))
      else k (x # xs))"

fun lazy :: "(char \<Rightarrow> bool) \<Rightarrow> string \<Rightarrow> (string \<Rightarrow> 'a option) \<Rightarrow> 'a option" where
  "lazy c [] k = k []"
| "lazy c (x # xs) k =
     (case k (x # xs) of Some r \<Rightarrow> Some r | None \<Rightarrow> if c x then lazy c xs k else None)"

fun exactly :: "nat \<Rightarrow> (char \<Rightarrow> bool) \<Rightarrow> string \<Rightarrow> (string \<Rightarrow> 'a option) \<Rightarrow> 'a option" where
  "exactly 0 c s k = k s"
| "exactly (Suc n) c [] k = None"
| "exactly (Suc n) c (x # xs) k = (if c x then exactly n c xs k else None)"

text \<open>
  \<open>bt r s g k\<close>: match \<open>r\<close> at the front of \<open>s\<close>, with \<open>g\<close> the text captured by the
  group so far, and hand the remaining input and the capture to \<open>k\<close>.
\<close>

fun bt :: "regex \<Rightarrow> string \<Rightarrow> string option \<Rightarrow> (string \<Rightarrow> string option \<Rightarrow> 'a option) \<Rightarrow> 'a option" where
  "bt (Lit w) s g k = (if take (length w) s = w then k (drop (length w) s) g else None)"
| "bt (Cls c) s g k = (case s of [] \<Rightarrow> None | x # xs \<Rightarrow> if c x then k xs g else None)"
| "bt (Seq a b) s g k = bt a s g (\<lambda>s' g'. bt b s' g' k)"
| "bt (Alt a b) s g k = (case bt a s g k of Some r \<Rightarrow> Some r | None \<Rightarrow> bt b s g k)"
| "bt (Opt a) s g k = (case bt a s g k of Some r \<Rightarrow> Some r | None \<Rightarrow> k s g)"
| "bt (PlusG c) s g k =
     (case s of [] \<Rightarrow> None | x # xs \<Rightarrow> if c x then greedy c xs (\<lambda>s'. k s' g) else None)"
| "bt (StarL c) s g k = lazy c s (\<lambda>s'. k s' g)"
| "bt (Rep n c) s g k = exactly n c s (\<lambda>s'. k s' g)"
| "bt (Grp a) s g k = bt a s g (\<lambda>s' _. k s' (Some (take (length s - length s') s)))"

definition matchAt :: "regex \<Rightarrow> string \<Rightarrow> string option option" where
  "matchAt r s = bt r s None (\<lambda>_ g. Some g)"

fun search :: "regex \<Rightarrow> string \<Rightarrow> string option option" where
  "search r [] = matchAt r []"
| "search r (x # xs) = (case matchAt r (x # xs) of Some g \<Rightarrow> Some g | None \<Rightarrow> search r xs)"

text \<open>The character classes \<^verbatim>\<open>\s\<close>, \<^verbatim>\<open>\S\<close>, \<^verbatim>\<open>[^\/\n\s]\<close>, \<^verbatim>\<open>[?&]\<close> and \<^verbatim>\<open>[a-zA-Z0-9_-]\<close>.\<close>

definition isSpace :: "char \<Rightarrow> bool" where
  "isSpace c = (c \<in> set [CHR 0x09, CHR 0x0A, CHR 0x0B, CHR 0x0C, CHR 0x0D, CHR 0x20, CHR 0xA0])"

definition nonSpace :: "char \<Rightarrow> bool" where
  "nonSpace c = (\<not> isSpace c)"

definition segChar :: "char \<Rightarrow> bool" where
  "segChar c = (c \<noteq> CHR ''/'' \<and> c \<noteq> CHR 0x0A \<and> \<not> isSpace c)"

definition queryMark :: "char \<Rightarrow> bool" where
  "queryMark c = (c = CHR ''?'' \<or> c = CHR ''&'')"

definition idChar :: "char \<Rightarrow> bool" where
  "idChar c =
     (let n = (of_char c :: nat)
      in (97 \<le> n \<and> n \<le> 122) \<or> (65 \<le> n \<and> n \<le> 90) \<or> (48 \<le> n \<and> n \<le> 57)
         \<or> c = CHR ''_'' \<or> c = CHR ''-'')"

text \<open>
  \<^verbatim>\<open>(?:https?:\/\/)?(?:www\.)?(?:youtube\.com\/(?:[^\/\n\s]+\/\S+\/|(?:v|e(?:mbed)?)\/|\S*?[?&]v=)|youtu\.be\/)\<close>
  is \<open>ytPrefix\<close>, and \<^verbatim>\<open>([a-zA-Z0-9_-]{11})\<close> follows it.
\<close>

definition ytPath :: regex where
  "ytPath =
     Alt (Seq (PlusG segChar) (Seq (Lit ''/'') (Seq (PlusG nonSpace) (Lit ''/''))))
      (Alt (Seq (Alt (Lit ''v'') (Seq (Lit ''e'') (Opt (Lit ''mbed'')))) (Lit ''/''))
        (Seq (StarL nonSpace) (Seq (Cls queryMark) (Lit ''v=''))))"

definition ytPrefix :: regex where
  "ytPrefix =
     Seq (Opt (Seq (Lit ''http'') (Seq (Opt (Lit ''s'')) (Lit ''://''))))
      (Seq (Opt (Lit ''www.''))
        (Alt (Seq (Lit ''youtube.com/'') ytPath) (Lit ''youtu.be/'')))"

definition ytRegex :: regex where
  "ytRegex = Seq ytPrefix (Grp (Rep 11 idChar))"

text \<open>\<^verbatim>\<open>match ? match[1] : null\<close>.\<close>

definition getYouTubeID :: "string \<Rightarrow> string option" where
  "getYouTubeID url = (case search ytRegex url of None \<Rightarrow> None | Some g \<Rightarrow> g)"

section \<open>The controls\<close>

text \<open>
  The click listener of the load button, on the text of the input field. \<^verbatim>\<open>alert\<close>
  appends to \<open>alerts\<close>.
\<close>

definition loadButtonClick :: "string \<Rightarrow> state \<Rightarrow> state" where
  "loadButtonClick url s =
     (let videoId = getYouTubeID url
      in if orElse videoId [] \<noteq> [] then
           let s1 = s\<lparr>currentVideoId := videoId\<rparr>;
               s2 = createFacade videoId 0 s1;
               s3 = s2\<lparr>buttonHidden := False\<rparr>;
               s4 = s3\<lparr>statusText := []\<rparr>;
               s5 = clearQualityMonitor (clearQualityRetry s4);
               s6 = s5\<lparr>lowBandwidthMode := False\<rparr>;
               s7 = s6\<lparr>buttonText := ''Simulate Low Internet''\<rparr>
           in clearQualityMonitor s7
         else s\<lparr>alerts := alerts s @ [''Please enter a valid YouTube video link!'']\<rparr>)"

text \<open>The click listener of the quality button.\<close>

definition qualityButtonClick :: "state \<Rightarrow> state" where
  "qualityButtonClick s =
     (let s1 = toggleLowInternetMode s
      in if lowBandwidthMode s1 then startQualityMonitor s1 else clearQualityMonitor s1)"

text \<open>
  A click on the facade ends in \<^verbatim>\<open>createPlayer\<close> (at once when the player runtime is
  loaded, after its script has loaded otherwise); \<open>p\<close> is what the new player answers.
\<close>

definition facadeClick :: "yt_player \<Rightarrow> state \<Rightarrow> state" where
  "facadeClick p s = (case playerContainer s of Facade v t \<Rightarrow> createPlayer p s | _ \<Rightarrow> s)"

text \<open>The page as the script leaves it after loading.\<close>

text \<open>
  The position of a level in the order tiny < small < medium < large < hd720 < hd1080 <
  highres; a name outside the seven gets 7.
\<close>

definition qualityRank :: "string \<Rightarrow> nat" where
  "qualityRank q = length (takeWhile (\<lambda>x. x \<noteq> q) QUALITY_ORDER)"

definition initial :: state where
  "initial =
     \<lparr>player = None, currentVideoId = None, lowBandwidthMode = False,
      qualityRetryTimer = None, qualityRetryCount = 0, qualityMonitorTimer = None,
      lastPlaybackTime = 0, pauseDestroyTimer = None, playerContainer = Empty,
      simulateOverlay = False, pauseOverlay = False, buttonHidden = True,
      buttonDisabled = False, buttonText = ''Simulate Low Internet'', statusText = [],
      clock = 0, timers = [], nextTimerId = 1, commands = [], alerts = [], uncaught = []\<rparr>"

section \<open>Events\<close>

text \<open>
  What can happen to the page, one event at a time. \<open>step\<close> is \<open>None\<close> where the event
  cannot happen: a player signal needs a player object, a click needs a visible, enabled
  control, a timer fires only when no queued timer is due before it, and time passes to
  \<open>t\<close> only while no queued timer is due before \<open>t\<close>. \<open>PlayerReports\<close> is the player
  changing what it answers; \<open>Simulate\<close> is a call of \<^verbatim>\<open>simulateLowInternetExperience\<close>.
\<close>

datatype event =
    LoadClick string
  | FacadeClick yt_player
  | PlayerReady
  | StateChange player_state
  | QualityChange string
  | QualityClick
  | Simulate
  | PlayerReports yt_player
  | TimerFires nat
  | At nat

definition earliest :: "nat \<Rightarrow> state \<Rightarrow> bool" where
  "earliest i s =
     (case find (\<lambda>t. tid t = i) (timers s) of
        None \<Rightarrow> False
      | Some t \<Rightarrow> list_all (\<lambda>u. due t \<le> due u) (timers s))"

definition step :: "event \<Rightarrow> state \<Rightarrow> state option" where
  "step e s =
     (case e of
        LoadClick url \<Rightarrow> Some (loadButtonClick url s)
      | FacadeClick p \<Rightarrow>
          (case playerContainer s of Facade v t \<Rightarrow> Some (facadeClick p s) | _ \<Rightarrow> None)
      | PlayerReady \<Rightarrow> if player s = None then None else Some (onPlayerReady s)
      | StateChange d \<Rightarrow> if player s = None then None else Some (onPlayerStateChange d s)
      | QualityChange q \<Rightarrow> if player s = None then None else Some (onPlayerQualityChange q s)
      | QualityClick \<Rightarrow>
          if buttonHidden s \<or> buttonDisabled s then None else Some (qualityButtonClick s)
      | Simulate \<Rightarrow> Some (simulateLowInternetExperience s)
      | PlayerReports p \<Rightarrow> if player s = None then None else Some (s\<lparr>player := Some p\<rparr>)
      | TimerFires i \<Rightarrow> if earliest i s then Some (fire i s) else None
      | At t \<Rightarrow>
          if clock s \<le> t \<and> list_all (\<lambda>u. t \<le> due u) (timers s) then Some (s\<lparr>clock := t\<rparr>)
          else None)"

fun exec :: "event list \<Rightarrow> state \<Rightarrow> state option" where
  "exec [] s = Some s"
| "exec (e # es) s = (case step e s of None \<Rightarrow> None | Some s1 \<Rightarrow> exec es s1)"

text \<open>
  One tick of the retry interval per element of the list, the player answering as the
  element says at that tick; a tick happens only while the interval is armed.
\<close>

fun retryRun :: "yt_player list \<Rightarrow> state \<Rightarrow> state" where
  "retryRun [] s = s"
| "retryRun (p # ps) s =
     retryRun ps (case qualityRetryTimer s of None \<Rightarrow> s | Some i \<Rightarrow> fire i (s\<lparr>player := Some p\<rparr>))"

section \<open>Well-formed timer queues\<close>

definition isPauseCb :: "callback \<Rightarrow> bool" where
  "isPauseCb c = (case c of PauseDestroyCb d \<Rightarrow> True | _ \<Rightarrow> False)"

definition isSimCb :: "callback \<Rightarrow> bool" where
  "isSimCb c = (case c of SimStatusCb m \<Rightarrow> True | SimEndCb m \<Rightarrow> True | _ \<Rightarrow> False)"

definition fresh :: "nat option \<Rightarrow> state \<Rightarrow> bool" where
  "fresh h s = (case h of None \<Rightarrow> True | Some i \<Rightarrow> i < nextTimerId s)"

text \<open>
  Queued timers have distinct ids, all already handed out, and a queued timer is the retry
  interval, the monitor interval or the teardown timeout precisely when the matching
  handle variable holds its id.
\<close>

definition wf :: "state \<Rightarrow> bool" where
  "wf s \<longleftrightarrow>
     distinct (map tid (timers s)) \<and>
     list_all (\<lambda>t. tid t < nextTimerId s) (timers s) \<and>
     list_all (\<lambda>t. (cb t = RetryCb) = (qualityRetryTimer s = Some (tid t))) (timers s) \<and>
     list_all (\<lambda>t. (cb t = MonitorCb) = (qualityMonitorTimer s = Some (tid t))) (timers s) \<and>
     list_all (\<lambda>t. isPauseCb (cb t) = (pauseDestroyTimer s = Some (tid t))) (timers s) \<and>
     fresh (qualityRetryTimer s) s \<and> fresh (qualityMonitorTimer s) s \<and>
     fresh (pauseDestroyTimer s) s"

text \<open>The queued timers whose callback satisfies \<open>P\<close>, in queue order.\<close>

definition kept :: "(callback \<Rightarrow> bool) \<Rightarrow> state \<Rightarrow> timer list" where
  "kept P s = filter (\<lambda>t. P (cb t)) (timers s)"

definition isHint :: "command \<Rightarrow> bool" where
  "isHint c = (case c of SetPlaybackQuality q \<Rightarrow> True | _ \<Rightarrow> False)"

text \<open>
  The signals that arm the teardown timeout, the signals that touch it at all, and the
  events that can start or restart the requesting of a quality: a playing signal, a
  click on the quality button and the ready signal.
\<close>

definition pauseSignal :: "player_state \<Rightarrow> bool" where
  "pauseSignal d = (d = PAUSED \<or> d = ENDED \<or> d = CUED)"

definition lifecycleSignal :: "event \<Rightarrow> bool" where
  "lifecycleSignal e = (case e of StateChange d \<Rightarrow> d = PLAYING \<or> pauseSignal d | _ \<Rightarrow> False)"

definition pauseEvent :: "event \<Rightarrow> bool" where
  "pauseEvent e = (case e of StateChange d \<Rightarrow> pauseSignal d | _ \<Rightarrow> False)"

definition arming :: "event \<Rightarrow> bool" where
  "arming e =
     (case e of StateChange d \<Rightarrow> d = PLAYING | QualityClick \<Rightarrow> True | PlayerReady \<Rightarrow> True
      | _ \<Rightarrow> False)"

text \<open>
  \<open>converged p\<close>: the quality the player \<open>p\<close> reports as applied is the target computed
  from the levels it reports as available (the target depends on the player only).
\<close>

definition converged :: "yt_player \<Rightarrow> bool" where
  "converged p = (playbackQuality p = Some (targetQuality (initial\<lparr>player := Some p\<rparr>)))"

definition hintFor :: "yt_player \<Rightarrow> command" where
  "hintFor p = SetPlaybackQuality (targetQuality (initial\<lparr>player := Some p\<rparr>))"



section \<open>Recognised links\<close>








definition www :: "string set" where
  "www = {[], ''www.''}"

section \<open>Example pages\<close>

definition demoPlayer :: yt_player where
  "demoPlayer =
     \<lparr>availableQualityLevels = Some [''hd720'', ''medium'', ''small'', ''auto''],
      playbackQuality = Some ''hd720'', currentTime = Some 12\<rparr>"

definition demoUrl :: string where
  "demoUrl = ''https://www.youtube.com/watch?v=dQw4w9WgXcQ''"

text \<open>A page on which a link was loaded, the facade clicked and playback has started.\<close>

definition playing :: state where
  "playing = onPlayerStateChange PLAYING (facadeClick demoPlayer (loadButtonClick demoUrl initial))"

definition seekingPlayer :: yt_player where
  "seekingPlayer = demoPlayer\<lparr>currentTime := Some 42\<rparr>"

text \<open>The page 100 ms after a paused signal, the player reporting position 42.\<close>

definition pausedAt100 :: state where
  "pausedAt100 = (onPlayerStateChange PAUSED playing)\<lparr>player := Some seekingPlayer, clock := 100\<rparr>"

text \<open>The page after one paused signal at time 0, and after a second one at time 200.\<close>

definition pausedOnce :: state where
  "pausedOnce =
     playing\<lparr>pauseDestroyTimer := Some 1,
       timers := [\<lparr>tid = 1, due = 350, period = None, cb = PauseDestroyCb PAUSED\<rparr>],
       nextTimerId := 2\<rparr>"

definition pausedTwice :: state where
  "pausedTwice =
     playing\<lparr>pauseDestroyTimer := Some 2,
       timers := [\<lparr>tid = 2, due = 550, period = None, cb = PauseDestroyCb PAUSED\<rparr>],
       nextTimerId := 3, clock := 200\<rparr>"

text \<open>The page after low-internet mode was switched on during playback.\<close>

definition enforcing :: state where
  "enforcing =
     playing\<lparr>lowBandwidthMode := True, buttonText := ''Disable Low Internet'',
       statusText := ''Requesting lower quality (240p)...'',
       commands := [SetPlaybackQuality ''small'', PlayVideo],
       qualityRetryTimer := Some 1, qualityMonitorTimer := Some 2,
       timers := [\<lparr>tid = 1, due = 1200, period = Some 1200, cb = RetryCb\<rparr>,
                  \<lparr>tid = 2, due = 700, period = Some 700, cb = MonitorCb\<rparr>],
       nextTimerId := 3\<rparr>"

definition settledPlayer :: yt_player where
  "settledPlayer = demoPlayer\<lparr>playbackQuality := Some ''small''\<rparr>"



text \<open>
  A page on which low-internet mode is switched on before the facade is clicked; the
  player then signals ready, the simulated sequence is started within the 150 ms by
  which \<^verbatim>\<open>onPlayerReady\<close> defers, and the deferred start fires. \<open>simSteps i t label\<close> are
  the four timeouts of a sequence started at time \<open>t\<close> with \<open>i\<close> the next timer id.
\<close>

definition loaded :: state where
  "loaded = initial\<lparr>currentVideoId := Some ''dQw4w9WgXcQ'',
     playerContainer := Facade (Some ''dQw4w9WgXcQ'') 0, buttonHidden := False\<rparr>"

definition armedEarly :: state where
  "armedEarly = loaded\<lparr>lowBandwidthMode := True, buttonText := ''Disable Low Internet'',
     statusText := ''Low-internet mode ON. Will apply on playback.'',
     qualityMonitorTimer := Some 1,
     timers := [\<lparr>tid = 1, due = 700, period = Some 700, cb = MonitorCb\<rparr>], nextTimerId := 2\<rparr>"

definition readied :: state where
  "readied = armedEarly\<lparr>player := Some demoPlayer, playerContainer := PlayerTarget,
     commands := [PauseVideo, SetPlaybackQuality ''small''],
     timers := [\<lparr>tid = 1, due = 700, period = Some 700, cb = MonitorCb\<rparr>,
                \<lparr>tid = 2, due = 150, period = None, cb = ReadyCb\<rparr>],
     nextTimerId := 3\<rparr>"

definition simSteps :: "nat \<Rightarrow> nat \<Rightarrow> string \<Rightarrow> timer list" where
  "simSteps i t label =
     [\<lparr>tid = i, due = t + 700, period = None, cb = SimStatusCb ''Diagnosing network...''\<rparr>,
      \<lparr>tid = i + 1, due = t + 1400, period = None,
         cb = SimStatusCb ''Bandwidth detected: 420 kbps (simulated)''\<rparr>,
      \<lparr>tid = i + 2, due = t + 2100, period = None,
         cb = SimStatusCb ''Applying lower resolution: 240p (simulated)''\<rparr>,
      \<lparr>tid = i + 3, due = t + 3000, period = None, cb = SimEndCb label\<rparr>]"

definition simulated :: state where
  "simulated = readied\<lparr>lowBandwidthMode := False, simulateOverlay := True,
     buttonDisabled := True, buttonText := ''Simulating...'',
     statusText := ''Simulating low internet...'',
     timers := [\<lparr>tid = 1, due = 700, period = Some 700, cb = MonitorCb\<rparr>,
                \<lparr>tid = 2, due = 150, period = None, cb = ReadyCb\<rparr>]
               @ simSteps 3 0 ''Disable Low Internet'',
     nextTimerId := 7\<rparr>"

definition bothArmed :: state where
  "bothArmed = simulated\<lparr>clock := 150,
     commands := [PauseVideo, SetPlaybackQuality ''small'', PlayVideo,
                  SetPlaybackQuality ''small'', PlayVideo],
     statusText := ''Requesting lower quality (240p)...'',
     qualityRetryTimer := Some 7, qualityMonitorTimer := Some 8,
     timers := simSteps 3 0 ''Disable Low Internet'' @
               [\<lparr>tid = 7, due = 1350, period = Some 1200, cb = RetryCb\<rparr>,
                \<lparr>tid = 8, due = 850, period = Some 700, cb = MonitorCb\<rparr>],
     nextTimerId := 9\<rparr>"

text \<open>
  The page \<open>bothArmed\<close> after the first step of the sequence (700 ms), after the next tick
  of the monitor (850 ms), after the first retry tick (1350 ms) and after the second
  step of the sequence (1400 ms).
\<close>

definition narrated1 :: state where
  "narrated1 = bothArmed\<lparr>clock := 700, statusText := ''Diagnosing network...'',
     timers := drop 1 (simSteps 3 0 ''Disable Low Internet'') @
               [\<lparr>tid = 7, due = 1350, period = Some 1200, cb = RetryCb\<rparr>,
                \<lparr>tid = 8, due = 850, period = Some 700, cb = MonitorCb\<rparr>]\<rparr>"

definition narrated2 :: state where
  "narrated2 = narrated1\<lparr>clock := 850, statusText := ''Quality: 720p'',
     timers := drop 1 (simSteps 3 0 ''Disable Low Internet'') @
               [\<lparr>tid = 7, due = 1350, period = Some 1200, cb = RetryCb\<rparr>,
                \<lparr>tid = 8, due = 1550, period = Some 700, cb = MonitorCb\<rparr>]\<rparr>"

definition narrated3 :: state where
  "narrated3 = narrated2\<lparr>clock := 1350, qualityRetryCount := 1,
     commands := commands bothArmed @ [SetPlaybackQuality ''small''],
     timers := drop 1 (simSteps 3 0 ''Disable Low Internet'') @
               [\<lparr>tid = 7, due = 2550, period = Some 1200, cb = RetryCb\<rparr>,
                \<lparr>tid = 8, due = 1550, period = Some 700, cb = MonitorCb\<rparr>]\<rparr>"

definition narrated4 :: state where
  "narrated4 = narrated3\<lparr>clock := 1400,
     statusText := ''Bandwidth detected: 420 kbps (simulated)'',
     timers := drop 2 (simSteps 3 0 ''Disable Low Internet'') @
               [\<lparr>tid = 7, due = 2550, period = Some 1200, cb = RetryCb\<rparr>,
                \<lparr>tid = 8, due = 1550, period = Some 700, cb = MonitorCb\<rparr>]\<rparr>"

text \<open>
  The page \<open>playing\<close> after a click on the quality button, then after the simulated
  sequence was started on it, after the next tick of the monitor (700 ms) and after the
  first step of the sequence (700 ms).
\<close>

definition clicked :: state where
  "clicked =
     enforcing\<lparr>qualityMonitorTimer := Some 3,
       timers := [\<lparr>tid = 1, due = 1200, period = Some 1200, cb = RetryCb\<rparr>,
                  \<lparr>tid = 3, due = 700, period = Some 700, cb = MonitorCb\<rparr>],
       nextTimerId := 4\<rparr>"

definition monitorLeft :: state where
  "monitorLeft =
     clicked\<lparr>lowBandwidthMode := False, qualityRetryTimer := None, simulateOverlay := True,
       buttonDisabled := True, buttonText := ''Simulating...'',
       statusText := ''Simulating low internet...'',
       timers := \<lparr>tid = 3, due = 700, period = Some 700, cb = MonitorCb\<rparr>
                 # simSteps 4 0 ''Disable Low Internet'',
       nextTimerId := 8\<rparr>"

definition monitorWrote :: state where
  "monitorWrote =
     monitorLeft\<lparr>clock := 700, statusText := ''Quality: 720p'',
       timers := \<lparr>tid = 3, due = 1400, period = Some 700, cb = MonitorCb\<rparr>
                 # simSteps 4 0 ''Disable Low Internet''\<rparr>"

definition sequenceWrote :: state where
  "sequenceWrote =
     monitorWrote\<lparr>statusText := ''Diagnosing network...'',
       timers := \<lparr>tid = 3, due = 1400, period = Some 700, cb = MonitorCb\<rparr>
                 # drop 1 (simSteps 4 0 ''Disable Low Internet'')\<rparr>"

text \<open>
  The simulated sequence started from \<open>playing\<close> at time 0, after \<open>k\<close> of its first three
  steps, and the page after its last step.
\<close>

definition simStage :: "nat \<Rightarrow> state" where
  "simStage k =
     playing\<lparr>simulateOverlay := True, buttonDisabled := True, buttonText := ''Simulating...'',
       statusText :=
         [''Simulating low internet...'', ''Diagnosing network...'',
          ''Bandwidth detected: 420 kbps (simulated)'',
          ''Applying lower resolution: 240p (simulated)''] ! k,
       clock := 700 * k, timers := drop k (simSteps 1 0 ''Simulate Low Internet''),
       nextTimerId := 5\<rparr>"

definition simStuck :: state where
  "simStuck =
     playing\<lparr>simulateOverlay := True, buttonDisabled := True, buttonText := ''Simulating...'',
       statusText := ''Applying lower resolution: 240p (simulated)'',
       clock := 3000, timers := [], nextTimerId := 5,
       uncaught := [ReferenceError ''removeSimulateOverlay'']\<rparr>"



definition noLevelsPlayer :: yt_player where
  "noLevelsPlayer = demoPlayer\<lparr>availableQualityLevels := None\<rparr>"

definition oddLevelsPlayer :: yt_player where
  "oddLevelsPlayer = demoPlayer\<lparr>availableQualityLevels := Some [''hd2160'', ''hd1440'', ''auto'']\<rparr>"

section \<open>Names the quality map finds\<close>

text \<open>
  A level of the literal shows its label, an unknown level shows its own name, and a name
  that \<^verbatim>\<open>Object.prototype\<close> defines shows the text of the inherited member.
\<close>

lemma inherited_names:
  "mapOrSelf ''small'' = ''240p'' \<and> mapOrSelf ''hd2160'' = ''hd2160'' \<and>
   mapOrSelf ''valueOf'' = ''function valueOf() { [native code] }'' \<and>
   mapOrSelf ''constructor'' = ''function Object() { [native code] }'' \<and>
   readableOf (Some ''__proto__'') = ''[object Object]'' \<and>
   readableOf (Some []) = ''Auto'' \<and> readableOf None = ''Auto''"
  by (simp add: mapOrSelf_def readableOf_def qualityMap_def objectPrototype_def orText_def
      orElse_def)

section \<open>Primitive steps\<close>

lemma fresh_iff: "fresh h s = (\<forall>i. h = Some i \<longrightarrow> i < nextTimerId s)"
  by (simp add: fresh_def split: option.splits)

lemma wf_cong:
  "timers s' = timers s \<Longrightarrow> nextTimerId s' = nextTimerId s \<Longrightarrow>
   qualityRetryTimer s' = qualityRetryTimer s \<Longrightarrow>
   qualityMonitorTimer s' = qualityMonitorTimer s \<Longrightarrow>
   pauseDestroyTimer s' = pauseDestroyTimer s \<Longrightarrow> wf s' = wf s"
  by (simp add: wf_def fresh_iff)

lemma retry_filter:
  "wf s \<Longrightarrow> timers (clearQualityRetry s) = filter (\<lambda>t. cb t \<noteq> RetryCb) (timers s)"
  by (auto simp: wf_def clearQualityRetry_def clearTimer_def list_all_iff
      split: option.splits intro!: filter_cong filter_True [symmetric])

lemma monitor_filter:
  "wf s \<Longrightarrow> timers (clearQualityMonitor s) = filter (\<lambda>t. cb t \<noteq> MonitorCb) (timers s)"
  by (auto simp: wf_def clearQualityMonitor_def clearTimer_def list_all_iff
      split: option.splits intro!: filter_cong filter_True [symmetric])

lemma clearQualityRetry_fields [simp]:
  "qualityRetryTimer (clearQualityRetry s) = None"
  "player (clearQualityRetry s) = player s"
  "currentVideoId (clearQualityRetry s) = currentVideoId s"
  "lowBandwidthMode (clearQualityRetry s) = lowBandwidthMode s"
  "qualityRetryCount (clearQualityRetry s) = qualityRetryCount s"
  "qualityMonitorTimer (clearQualityRetry s) = qualityMonitorTimer s"
  "lastPlaybackTime (clearQualityRetry s) = lastPlaybackTime s"
  "pauseDestroyTimer (clearQualityRetry s) = pauseDestroyTimer s"
  "playerContainer (clearQualityRetry s) = playerContainer s"
  "simulateOverlay (clearQualityRetry s) = simulateOverlay s"
  "pauseOverlay (clearQualityRetry s) = pauseOverlay s"
  "buttonHidden (clearQualityRetry s) = buttonHidden s"
  "buttonDisabled (clearQualityRetry s) = buttonDisabled s"
  "buttonText (clearQualityRetry s) = buttonText s"
  "statusText (clearQualityRetry s) = statusText s"
  "clock (clearQualityRetry s) = clock s"
  "nextTimerId (clearQualityRetry s) = nextTimerId s"
  "commands (clearQualityRetry s) = commands s"
  "alerts (clearQualityRetry s) = alerts s"
  "uncaught (clearQualityRetry s) = uncaught s"
  by (simp_all add: clearQualityRetry_def clearTimer_def split: option.splits)

lemma clearQualityMonitor_fields [simp]:
  "qualityMonitorTimer (clearQualityMonitor s) = None"
  "player (clearQualityMonitor s) = player s"
  "currentVideoId (clearQualityMonitor s) = currentVideoId s"
  "lowBandwidthMode (clearQualityMonitor s) = lowBandwidthMode s"
  "qualityRetryCount (clearQualityMonitor s) = qualityRetryCount s"
  "qualityRetryTimer (clearQualityMonitor s) = qualityRetryTimer s"
  "lastPlaybackTime (clearQualityMonitor s) = lastPlaybackTime s"
  "pauseDestroyTimer (clearQualityMonitor s) = pauseDestroyTimer s"
  "playerContainer (clearQualityMonitor s) = playerContainer s"
  "simulateOverlay (clearQualityMonitor s) = simulateOverlay s"
  "pauseOverlay (clearQualityMonitor s) = pauseOverlay s"
  "buttonHidden (clearQualityMonitor s) = buttonHidden s"
  "buttonDisabled (clearQualityMonitor s) = buttonDisabled s"
  "buttonText (clearQualityMonitor s) = buttonText s"
  "statusText (clearQualityMonitor s) = statusText s"
  "clock (clearQualityMonitor s) = clock s"
  "nextTimerId (clearQualityMonitor s) = nextTimerId s"
  "commands (clearQualityMonitor s) = commands s"
  "alerts (clearQualityMonitor s) = alerts s"
  "uncaught (clearQualityMonitor s) = uncaught s"
  by (simp_all add: clearQualityMonitor_def clearTimer_def split: option.splits)

lemma wf_clearQualityRetry: "wf s \<Longrightarrow> wf (clearQualityRetry s)"
  unfolding wf_def
  by (simp add: retry_filter [unfolded wf_def] fresh_iff list_all_iff distinct_map_filter)

lemma wf_clearQualityMonitor: "wf s \<Longrightarrow> wf (clearQualityMonitor s)"
  unfolding wf_def
  by (simp add: monitor_filter [unfolded wf_def] fresh_iff list_all_iff distinct_map_filter)

lemma kept_clearQualityRetry:
  "wf s \<Longrightarrow> \<not> P RetryCb \<Longrightarrow> kept P (clearQualityRetry s) = kept P s"
  by (auto simp: kept_def retry_filter intro: filter_cong)

lemma kept_clearQualityMonitor:
  "wf s \<Longrightarrow> \<not> P MonitorCb \<Longrightarrow> kept P (clearQualityMonitor s) = kept P s"
  by (auto simp: kept_def monitor_filter intro: filter_cong)

lemma kept_retry_cleared: "wf s \<Longrightarrow> kept (\<lambda>c. c = RetryCb) (clearQualityRetry s) = []"
  by (simp add: kept_def retry_filter)

lemma kept_monitor_cleared: "wf s \<Longrightarrow> kept (\<lambda>c. c = MonitorCb) (clearQualityMonitor s) = []"
  by (simp add: kept_def monitor_filter)

lemma send_fields [simp]:
  "timers (send c s) = timers s" "nextTimerId (send c s) = nextTimerId s"
  "qualityRetryTimer (send c s) = qualityRetryTimer s"
  "qualityMonitorTimer (send c s) = qualityMonitorTimer s"
  "pauseDestroyTimer (send c s) = pauseDestroyTimer s"
  "player (send c s) = player s" "clock (send c s) = clock s"
  "lowBandwidthMode (send c s) = lowBandwidthMode s"
  "qualityRetryCount (send c s) = qualityRetryCount s"
  "lastPlaybackTime (send c s) = lastPlaybackTime s"
  "currentVideoId (send c s) = currentVideoId s"
  "playerContainer (send c s) = playerContainer s"
  "simulateOverlay (send c s) = simulateOverlay s"
  "pauseOverlay (send c s) = pauseOverlay s"
  "buttonHidden (send c s) = buttonHidden s"
  "buttonDisabled (send c s) = buttonDisabled s"
  "buttonText (send c s) = buttonText s"
  "statusText (send c s) = statusText s"
  "alerts (send c s) = alerts s" "uncaught (send c s) = uncaught s"
  by (simp_all add: send_def split: option.splits)

lemma send_commands:
  "commands (send c s) = (if player s = None then commands s else commands s @ [c])"
  by (simp add: send_def split: option.splits)

lemma wf_send [simp]: "wf (send c s) = wf s"
  by (rule wf_cong) simp_all

lemma kept_send [simp]: "kept P (send c s) = kept P s"
  by (simp add: kept_def)

lemma wf_arm_retry:
  "wf s \<Longrightarrow> qualityRetryTimer s = None \<Longrightarrow>
   wf ((snd (setTimer RetryCb d p s))\<lparr>qualityRetryTimer := Some (nextTimerId s)\<rparr>)"
  by (auto simp: wf_def setTimer_def fresh_iff list_all_iff isPauseCb_def)

lemma wf_arm_monitor:
  "wf s \<Longrightarrow> qualityMonitorTimer s = None \<Longrightarrow>
   wf ((snd (setTimer MonitorCb d p s))\<lparr>qualityMonitorTimer := Some (nextTimerId s)\<rparr>)"
  by (auto simp: wf_def setTimer_def fresh_iff list_all_iff isPauseCb_def)

lemma wf_arm_pause:
  "wf s \<Longrightarrow> kept isPauseCb s = [] \<Longrightarrow>
   wf ((snd (setTimer (PauseDestroyCb x) d p s))\<lparr>pauseDestroyTimer := Some (nextTimerId s)\<rparr>)"
  by (auto simp: wf_def setTimer_def fresh_iff list_all_iff isPauseCb_def kept_def filter_empty_conv)

lemma wf_setTimer_other:
  "wf s \<Longrightarrow> c \<noteq> RetryCb \<Longrightarrow> c \<noteq> MonitorCb \<Longrightarrow> \<not> isPauseCb c \<Longrightarrow>
   wf (snd (setTimer c d p s))"
  by (auto simp: wf_def setTimer_def fresh_iff list_all_iff)

lemma kept_setTimer:
  "kept P (snd (setTimer c d p s)) =
     kept P s @ (if P c then [\<lparr>tid = nextTimerId s, due = clock s + d, period = p, cb = c\<rparr>] else [])"
  by (simp add: kept_def setTimer_def)


section \<open>Handlers\<close>

lemma targetQuality_cong: "player s' = player s \<Longrightarrow> targetQuality s' = targetQuality s"
  by (simp add: targetQuality_def getLowestAvailableQuality_def safeGetAvailableQualityLevels_def)

lemma safeGetPlaybackQuality_cong:
  "player s' = player s \<Longrightarrow> safeGetPlaybackQuality s' = safeGetPlaybackQuality s"
  by (simp add: safeGetPlaybackQuality_def)

lemma enforce_none: "player s = None \<Longrightarrow> enforceLowQuality s = s"
  by (simp add: enforceLowQuality_def)

lemma enforce_some:
  "player s = Some pl \<Longrightarrow>
   enforceLowQuality s =
     (clearQualityRetry s)
       \<lparr>statusText := ''Requesting lower quality ('' @ mapOrSelf (targetQuality s) @ '')...'',
        commands := commands s @ [SetPlaybackQuality (targetQuality s), PlayVideo],
        qualityRetryCount := 0,
        timers := timers (clearQualityRetry s) @
          [\<lparr>tid = nextTimerId s, due = clock s + 1200, period = Some 1200, cb = RetryCb\<rparr>],
        nextTimerId := Suc (nextTimerId s),
        qualityRetryTimer := Some (nextTimerId s)\<rparr>"
  by (simp add: enforceLowQuality_def Let_def setTimer_def send_def
      targetQuality_cong [of "clearQualityRetry s" s])

lemma enforce_fields [simp]:
  "player (enforceLowQuality s) = player s"
  "currentVideoId (enforceLowQuality s) = currentVideoId s"
  "lowBandwidthMode (enforceLowQuality s) = lowBandwidthMode s"
  "qualityMonitorTimer (enforceLowQuality s) = qualityMonitorTimer s"
  "lastPlaybackTime (enforceLowQuality s) = lastPlaybackTime s"
  "pauseDestroyTimer (enforceLowQuality s) = pauseDestroyTimer s"
  "playerContainer (enforceLowQuality s) = playerContainer s"
  "simulateOverlay (enforceLowQuality s) = simulateOverlay s"
  "pauseOverlay (enforceLowQuality s) = pauseOverlay s"
  "buttonHidden (enforceLowQuality s) = buttonHidden s"
  "buttonDisabled (enforceLowQuality s) = buttonDisabled s"
  "buttonText (enforceLowQuality s) = buttonText s"
  "clock (enforceLowQuality s) = clock s"
  "alerts (enforceLowQuality s) = alerts s"
  "uncaught (enforceLowQuality s) = uncaught s"
  by (cases "player s"; simp add: enforce_none enforce_some)+

lemma wf_enforceLowQuality: "wf s \<Longrightarrow> wf (enforceLowQuality s)"
proof (cases "player s")
  case None
  assume "wf s" then show ?thesis using None by (simp add: enforce_none)
next
  case (Some pl)
  assume w: "wf s"
  let ?s1 = "clearQualityRetry s"
  have w1: "wf ?s1" using w by (rule wf_clearQualityRetry)
  have "wf ((snd (setTimer RetryCb 1200 (Some 1200) ?s1))\<lparr>qualityRetryTimer := Some (nextTimerId ?s1)\<rparr>)"
    using w1 by (rule wf_arm_retry) simp
  moreover have "wf (enforceLowQuality s) =
      wf ((snd (setTimer RetryCb 1200 (Some 1200) ?s1))\<lparr>qualityRetryTimer := Some (nextTimerId ?s1)\<rparr>)"
    by (rule wf_cong) (simp_all add: enforce_some [OF Some] setTimer_def)
  ultimately show ?thesis by simp
qed

lemma kept_enforceLowQuality:
  "wf s \<Longrightarrow> \<not> P RetryCb \<Longrightarrow> kept P (enforceLowQuality s) = kept P s"
proof (cases "player s")
  case None
  then show ?thesis by (simp add: enforce_none)
next
  case (Some pl)
  assume w: "wf s" and p: "\<not> P RetryCb"
  have "kept P (enforceLowQuality s) = kept P (clearQualityRetry s)"
    using p by (simp add: enforce_some [OF Some] kept_def)
  then show ?thesis using kept_clearQualityRetry [of s P] w p by simp
qed

lemma monitor_eq:
  "startQualityMonitor s =
     (clearQualityMonitor s)
       \<lparr>timers := timers (clearQualityMonitor s) @
          [\<lparr>tid = nextTimerId s, due = clock s + 700, period = Some 700, cb = MonitorCb\<rparr>],
        nextTimerId := Suc (nextTimerId s),
        qualityMonitorTimer := Some (nextTimerId s)\<rparr>"
  by (simp add: startQualityMonitor_def Let_def setTimer_def)

lemma monitor_fields [simp]:
  "player (startQualityMonitor s) = player s"
  "currentVideoId (startQualityMonitor s) = currentVideoId s"
  "lowBandwidthMode (startQualityMonitor s) = lowBandwidthMode s"
  "qualityRetryTimer (startQualityMonitor s) = qualityRetryTimer s"
  "qualityRetryCount (startQualityMonitor s) = qualityRetryCount s"
  "lastPlaybackTime (startQualityMonitor s) = lastPlaybackTime s"
  "pauseDestroyTimer (startQualityMonitor s) = pauseDestroyTimer s"
  "playerContainer (startQualityMonitor s) = playerContainer s"
  "simulateOverlay (startQualityMonitor s) = simulateOverlay s"
  "pauseOverlay (startQualityMonitor s) = pauseOverlay s"
  "buttonHidden (startQualityMonitor s) = buttonHidden s"
  "buttonDisabled (startQualityMonitor s) = buttonDisabled s"
  "buttonText (startQualityMonitor s) = buttonText s"
  "statusText (startQualityMonitor s) = statusText s"
  "clock (startQualityMonitor s) = clock s"
  "commands (startQualityMonitor s) = commands s"
  "alerts (startQualityMonitor s) = alerts s"
  "uncaught (startQualityMonitor s) = uncaught s"
  by (simp_all add: monitor_eq)

lemma wf_startQualityMonitor: "wf s \<Longrightarrow> wf (startQualityMonitor s)"
proof -
  assume w: "wf s"
  let ?s1 = "clearQualityMonitor s"
  have w1: "wf ?s1" using w by (rule wf_clearQualityMonitor)
  have "wf ((snd (setTimer MonitorCb 700 (Some 700) ?s1))\<lparr>qualityMonitorTimer := Some (nextTimerId ?s1)\<rparr>)"
    using w1 by (rule wf_arm_monitor) simp
  moreover have "wf (startQualityMonitor s) =
      wf ((snd (setTimer MonitorCb 700 (Some 700) ?s1))\<lparr>qualityMonitorTimer := Some (nextTimerId ?s1)\<rparr>)"
    by (rule wf_cong) (simp_all add: monitor_eq setTimer_def)
  ultimately show ?thesis by simp
qed

lemma kept_startQualityMonitor:
  "wf s \<Longrightarrow> \<not> P MonitorCb \<Longrightarrow> kept P (startQualityMonitor s) = kept P s"
proof -
  assume w: "wf s" and p: "\<not> P MonitorCb"
  have "kept P (startQualityMonitor s) = kept P (clearQualityMonitor s)"
    using p by (simp add: monitor_eq kept_def)
  then show ?thesis using kept_clearQualityMonitor [of s P] w p by simp
qed

lemma wf_upd [simp]:
  "wf (s\<lparr>player := a1\<rparr>) = wf s"
  "wf (s\<lparr>currentVideoId := a2\<rparr>) = wf s"
  "wf (s\<lparr>lowBandwidthMode := a3\<rparr>) = wf s"
  "wf (s\<lparr>qualityRetryCount := a4\<rparr>) = wf s"
  "wf (s\<lparr>lastPlaybackTime := a5\<rparr>) = wf s"
  "wf (s\<lparr>playerContainer := a6\<rparr>) = wf s"
  "wf (s\<lparr>simulateOverlay := a7\<rparr>) = wf s"
  "wf (s\<lparr>pauseOverlay := a8\<rparr>) = wf s"
  "wf (s\<lparr>buttonHidden := a9\<rparr>) = wf s"
  "wf (s\<lparr>buttonDisabled := b1\<rparr>) = wf s"
  "wf (s\<lparr>buttonText := b2\<rparr>) = wf s"
  "wf (s\<lparr>statusText := b3\<rparr>) = wf s"
  "wf (s\<lparr>clock := b4\<rparr>) = wf s"
  "wf (s\<lparr>commands := b5\<rparr>) = wf s"
  "wf (s\<lparr>alerts := b6\<rparr>) = wf s"
  "wf (s\<lparr>uncaught := b7\<rparr>) = wf s"
  by (simp_all add: wf_def fresh_iff)

lemma kept_upd [simp]:
  "kept P (s\<lparr>player := a1\<rparr>) = kept P s"
  "kept P (s\<lparr>currentVideoId := a2\<rparr>) = kept P s"
  "kept P (s\<lparr>lowBandwidthMode := a3\<rparr>) = kept P s"
  "kept P (s\<lparr>qualityRetryCount := a4\<rparr>) = kept P s"
  "kept P (s\<lparr>lastPlaybackTime := a5\<rparr>) = kept P s"
  "kept P (s\<lparr>playerContainer := a6\<rparr>) = kept P s"
  "kept P (s\<lparr>simulateOverlay := a7\<rparr>) = kept P s"
  "kept P (s\<lparr>pauseOverlay := a8\<rparr>) = kept P s"
  "kept P (s\<lparr>buttonHidden := a9\<rparr>) = kept P s"
  "kept P (s\<lparr>buttonDisabled := b1\<rparr>) = kept P s"
  "kept P (s\<lparr>buttonText := b2\<rparr>) = kept P s"
  "kept P (s\<lparr>statusText := b3\<rparr>) = kept P s"
  "kept P (s\<lparr>clock := b4\<rparr>) = kept P s"
  "kept P (s\<lparr>commands := b5\<rparr>) = kept P s"
  "kept P (s\<lparr>alerts := b6\<rparr>) = kept P s"
  "kept P (s\<lparr>uncaught := b7\<rparr>) = kept P s"
  "kept P (s\<lparr>qualityRetryTimer := c1\<rparr>) = kept P s"
  "kept P (s\<lparr>qualityMonitorTimer := c2\<rparr>) = kept P s"
  "kept P (s\<lparr>pauseDestroyTimer := c3\<rparr>) = kept P s"
  "kept P (s\<lparr>nextTimerId := c4\<rparr>) = kept P s"
  by (simp_all add: kept_def)

lemma wf_toggle: "wf s \<Longrightarrow> wf (toggleLowInternetMode s)"
  by (simp add: toggleLowInternetMode_def Let_def wf_startQualityMonitor wf_enforceLowQuality
      wf_clearQualityMonitor wf_clearQualityRetry del: not_None_eq)

lemma kept_toggle:
  "wf s \<Longrightarrow> \<not> P RetryCb \<Longrightarrow> \<not> P MonitorCb \<Longrightarrow> kept P (toggleLowInternetMode s) = kept P s"
  by (simp add: toggleLowInternetMode_def Let_def kept_startQualityMonitor kept_enforceLowQuality
      kept_clearQualityMonitor kept_clearQualityRetry wf_enforceLowQuality wf_clearQualityRetry
      del: not_None_eq)


lemma wf_qualityButtonClick: "wf s \<Longrightarrow> wf (qualityButtonClick s)"
  by (simp add: qualityButtonClick_def Let_def wf_toggle wf_startQualityMonitor wf_clearQualityMonitor)

lemma kept_qualityButtonClick:
  "wf s \<Longrightarrow> \<not> P RetryCb \<Longrightarrow> \<not> P MonitorCb \<Longrightarrow> kept P (qualityButtonClick s) = kept P s"
  by (simp add: qualityButtonClick_def Let_def wf_toggle kept_toggle kept_startQualityMonitor
      kept_clearQualityMonitor)

lemma wf_onPlayerQualityChange: "wf s \<Longrightarrow> wf (onPlayerQualityChange q s)"
  by (simp add: onPlayerQualityChange_def Let_def wf_clearQualityRetry)

lemma kept_onPlayerQualityChange:
  "wf s \<Longrightarrow> \<not> P RetryCb \<Longrightarrow> kept P (onPlayerQualityChange q s) = kept P s"
  by (simp add: onPlayerQualityChange_def Let_def kept_clearQualityRetry)

lemma wf_createFacade [simp]: "wf (createFacade v t s) = wf s"
  by (simp add: createFacade_def)

lemma kept_createFacade [simp]: "kept P (createFacade v t s) = kept P s"
  by (simp add: createFacade_def)

lemma wf_loadButtonClick: "wf s \<Longrightarrow> wf (loadButtonClick url s)"
  by (simp add: loadButtonClick_def Let_def wf_clearQualityRetry wf_clearQualityMonitor)

lemma kept_loadButtonClick:
  "wf s \<Longrightarrow> \<not> P RetryCb \<Longrightarrow> \<not> P MonitorCb \<Longrightarrow> kept P (loadButtonClick url s) = kept P s"
  by (simp add: loadButtonClick_def Let_def kept_clearQualityRetry kept_clearQualityMonitor
      wf_clearQualityRetry wf_clearQualityMonitor)

lemma wf_facadeClick: "wf s \<Longrightarrow> wf (facadeClick p s)"
  by (simp add: facadeClick_def createPlayer_def split: container.splits)

lemma kept_facadeClick: "kept P (facadeClick p s) = kept P s"
  by (simp add: facadeClick_def createPlayer_def split: container.splits)

lemma wf_onPlayerReady: "wf s \<Longrightarrow> wf (onPlayerReady s)"
  by (simp add: onPlayerReady_def Let_def wf_setTimer_other isPauseCb_def)

lemma kept_onPlayerReady: "\<not> P ReadyCb \<Longrightarrow> kept P (onPlayerReady s) = kept P s"
  by (simp add: onPlayerReady_def Let_def kept_setTimer)

lemma wf_simulate: "wf s \<Longrightarrow> wf (simulateLowInternetExperience s)"
  by (simp add: simulateLowInternetExperience_def Let_def createSimulateOverlay_def
      wf_setTimer_other isPauseCb_def wf_clearQualityRetry)

lemma setTimer_fields [simp]:
  "player (snd (setTimer c d p s)) = player s"
  "pauseDestroyTimer (snd (setTimer c d p s)) = pauseDestroyTimer s"
  "qualityRetryTimer (snd (setTimer c d p s)) = qualityRetryTimer s"
  "qualityMonitorTimer (snd (setTimer c d p s)) = qualityMonitorTimer s"
  "clock (snd (setTimer c d p s)) = clock s"
  "commands (snd (setTimer c d p s)) = commands s"
  "nextTimerId (snd (setTimer c d p s)) = Suc (nextTimerId s)"
  "lowBandwidthMode (snd (setTimer c d p s)) = lowBandwidthMode s"
  "buttonDisabled (snd (setTimer c d p s)) = buttonDisabled s"
  "buttonText (snd (setTimer c d p s)) = buttonText s"
  "statusText (snd (setTimer c d p s)) = statusText s"
  "simulateOverlay (snd (setTimer c d p s)) = simulateOverlay s"
  "playerContainer (snd (setTimer c d p s)) = playerContainer s"
  "fst (setTimer c d p s) = nextTimerId s"
  by (simp_all add: setTimer_def)

lemma kept_simulate:
  "wf s \<Longrightarrow> \<not> P RetryCb \<Longrightarrow> \<forall>m. \<not> P (SimStatusCb m) \<and> \<not> P (SimEndCb m) \<Longrightarrow>
   kept P (simulateLowInternetExperience s) = kept P s"
  by (simp add: simulateLowInternetExperience_def Let_def createSimulateOverlay_def
      kept_setTimer kept_clearQualityRetry)

section \<open>Teardown\<close>

lemma kept_clearTimer: "kept P (clearTimer i s) = filter (\<lambda>t. tid t \<noteq> i) (kept P s)"
  by (auto simp: kept_def clearTimer_def intro: filter_cong)

lemma pause_filter:
  "wf s \<Longrightarrow> pauseDestroyTimer s = Some i \<Longrightarrow>
   timers (clearTimer i s) = filter (\<lambda>t. \<not> isPauseCb (cb t)) (timers s)"
  by (auto simp: wf_def clearTimer_def list_all_iff intro!: filter_cong)

lemma pause_none_kept: "wf s \<Longrightarrow> pauseDestroyTimer s = None \<Longrightarrow> kept isPauseCb s = []"
  by (auto simp: wf_def kept_def list_all_iff filter_empty_conv)

lemma wf_clearPause:
  "wf s \<Longrightarrow> pauseDestroyTimer s = Some i \<Longrightarrow>
     wf (clearTimer i s) \<and> wf ((clearTimer i s)\<lparr>pauseDestroyTimer := None\<rparr>) \<and>
     kept isPauseCb (clearTimer i s) = []"
  unfolding wf_def kept_def
  by (auto simp: pause_filter [unfolded wf_def] fresh_iff list_all_iff distinct_map_filter
      clearTimer_def filter_empty_conv)

lemma clearTimer_fields [simp]:
  "player (clearTimer i s) = player s"
  "pauseDestroyTimer (clearTimer i s) = pauseDestroyTimer s"
  "qualityRetryTimer (clearTimer i s) = qualityRetryTimer s"
  "qualityMonitorTimer (clearTimer i s) = qualityMonitorTimer s"
  "clock (clearTimer i s) = clock s"
  "commands (clearTimer i s) = commands s"
  "nextTimerId (clearTimer i s) = nextTimerId s"
  "lowBandwidthMode (clearTimer i s) = lowBandwidthMode s"
  "playerContainer (clearTimer i s) = playerContainer s"
  by (simp_all add: clearTimer_def)

lemma wf_onPlayerStateChange: "wf s \<Longrightarrow> wf (onPlayerStateChange d s)"
proof -
  assume w: "wf s"
  let ?s0 = "case pauseDestroyTimer s of None \<Rightarrow> s | Some i \<Rightarrow> clearTimer i s"
  let ?s2 = "removePauseOverlay
     (if lowBandwidthMode s then enforceLowQuality (s\<lparr>buttonHidden := False\<rparr>)
      else s\<lparr>buttonHidden := False\<rparr>)"
  have w0: "wf ?s0 \<and> kept isPauseCb ?s0 = []"
    using w wf_clearPause [of s] pause_none_kept [of s] by (auto split: option.splits)
  have w2: "wf ?s2"
    using w by (simp add: removePauseOverlay_def wf_enforceLowQuality)
  have p: "d = PLAYING \<Longrightarrow> ?thesis"
    using w2 wf_clearPause [of ?s2]
    by (auto simp: onPlayerStateChange_def Let_def split: option.splits)
  have q: "d = PAUSED \<or> d = ENDED \<or> d = CUED \<Longrightarrow> ?thesis"
  proof -
    assume d: "d = PAUSED \<or> d = ENDED \<or> d = CUED"
    have n: "nextTimerId ?s0 = nextTimerId s" by (simp split: option.splits)
    have "onPlayerStateChange d s =
      (snd (setTimer (PauseDestroyCb d) 350 None ?s0))\<lparr>pauseDestroyTimer := Some (nextTimerId ?s0)\<rparr>"
      using d by (auto simp: onPlayerStateChange_def Let_def setTimer_def split: option.splits)
    then show ?thesis using wf_arm_pause [of ?s0 d 350 None] w0 by simp
  qed
  show ?thesis using p q w by (cases d) (auto simp: onPlayerStateChange_def)
qed

lemma kept_onPlayerStateChange:
  assumes "wf s" and "\<not> P RetryCb" and "\<forall>x. \<not> P (PauseDestroyCb x)"
  shows "kept P (onPlayerStateChange d s) = kept P s"
proof -
  have f: "\<And>i t. wf t \<Longrightarrow> pauseDestroyTimer t = Some i \<Longrightarrow> kept P (clearTimer i t) = kept P t"
  proof -
    fix i t assume "wf t" "pauseDestroyTimer t = Some i"
    then have h: "timers (clearTimer i t) = filter (\<lambda>t. \<not> isPauseCb (cb t)) (timers t)"
      by (rule pause_filter)
    have imp: "\<And>c. P c \<Longrightarrow> \<not> isPauseCb c"
      using assms(3) by (auto simp: isPauseCb_def split: callback.splits)
    show "kept P (clearTimer i t) = kept P t"
      by (auto simp: kept_def h dest: imp intro!: filter_cong)
  qed
  show ?thesis
    using assms f [of s] f [of "removePauseOverlay (enforceLowQuality (s\<lparr>buttonHidden := False\<rparr>))"]
      f [of "removePauseOverlay (s\<lparr>buttonHidden := False\<rparr>)"]
    by (auto simp: onPlayerStateChange_def Let_def removePauseOverlay_def kept_setTimer
        kept_enforceLowQuality wf_enforceLowQuality case_prod_beta split: option.splits)
qed


section \<open>Callbacks\<close>

lemma pauseDestroy_fields:
  "player (pauseDestroy d s) = None"
  "playerContainer (pauseDestroy d s) = Facade (currentVideoId s) (if d = ENDED then 0 else capturedTime s)"
  "lastPlaybackTime (pauseDestroy d s) = (if d = ENDED then 0 else capturedTime s)"
  "commands (pauseDestroy d s) = (if player s = None then commands s else commands s @ [Destroy])"
  "qualityRetryTimer (pauseDestroy d s) = None"
  "qualityMonitorTimer (pauseDestroy d s) = None"
  "pauseDestroyTimer (pauseDestroy d s) = pauseDestroyTimer s"
  "buttonHidden (pauseDestroy d s) = False"
  "simulateOverlay (pauseDestroy d s) = False"
  "clock (pauseDestroy d s) = clock s"
  "lowBandwidthMode (pauseDestroy d s) = lowBandwidthMode s"
  "currentVideoId (pauseDestroy d s) = currentVideoId s"
  by (simp_all add: pauseDestroy_def Let_def createFacade_def send_commands)

lemma wf_pauseDestroy: "wf s \<Longrightarrow> wf (pauseDestroy d s)"
  by (simp add: pauseDestroy_def Let_def wf_clearQualityRetry wf_clearQualityMonitor)

lemma kept_pauseDestroy:
  "wf s \<Longrightarrow> \<not> P RetryCb \<Longrightarrow> \<not> P MonitorCb \<Longrightarrow> kept P (pauseDestroy d s) = kept P s"
  by (simp add: pauseDestroy_def Let_def wf_clearQualityRetry kept_clearQualityRetry
      kept_clearQualityMonitor)

lemma kept_pauseDestroy_cleared:
  "wf s \<Longrightarrow> kept (\<lambda>c. c = RetryCb) (pauseDestroy d s) = [] \<and>
            kept (\<lambda>c. c = MonitorCb) (pauseDestroy d s) = []"
proof -
  assume w: "wf s"
  let ?s6 = "(createFacade (currentVideoId s) (if d = ENDED then 0 else capturedTime s)
      ((send Destroy (s\<lparr>lastPlaybackTime := (if d = ENDED then 0 else capturedTime s)\<rparr>))
         \<lparr>player := None\<rparr>))\<lparr>buttonHidden := False\<rparr>"
  have e: "pauseDestroy d s = clearQualityMonitor (clearQualityRetry ?s6)"
    by (simp add: pauseDestroy_def Let_def)
  have w6: "wf ?s6" using w by simp
  have w7: "wf (clearQualityRetry ?s6)" using w6 by (rule wf_clearQualityRetry)
  have a: "kept (\<lambda>c. c = RetryCb) (clearQualityRetry ?s6) = []"
    using w6 by (rule kept_retry_cleared)
  have "kept (\<lambda>c. c = RetryCb) (pauseDestroy d s) = kept (\<lambda>c. c = RetryCb) (clearQualityRetry ?s6)"
    unfolding e using w7 by (rule kept_clearQualityMonitor) simp
  moreover have "kept (\<lambda>c. c = MonitorCb) (pauseDestroy d s) = []"
    unfolding e using w7 by (rule kept_monitor_cleared)
  ultimately show ?thesis using a by simp
qed

lemma retryTick_fields [simp]:
  "player (retryTick s) = player s"
  "pauseDestroyTimer (retryTick s) = pauseDestroyTimer s"
  "qualityMonitorTimer (retryTick s) = qualityMonitorTimer s"
  "clock (retryTick s) = clock s"
  "lowBandwidthMode (retryTick s) = lowBandwidthMode s"
  "playerContainer (retryTick s) = playerContainer s"
  "nextTimerId (retryTick s) = nextTimerId s"
  by (simp_all add: retryTick_def Let_def)

lemma wf_retryTick: "wf s \<Longrightarrow> wf (retryTick s)"
  by (simp add: retryTick_def Let_def wf_clearQualityRetry)

lemma kept_retryTick: "wf s \<Longrightarrow> \<not> P RetryCb \<Longrightarrow> kept P (retryTick s) = kept P s"
  by (simp add: retryTick_def Let_def kept_clearQualityRetry)

lemma monitorTick_fields [simp]:
  "player (monitorTick s) = player s"
  "timers (monitorTick s) = timers s"
  "nextTimerId (monitorTick s) = nextTimerId s"
  "pauseDestroyTimer (monitorTick s) = pauseDestroyTimer s"
  "qualityRetryTimer (monitorTick s) = qualityRetryTimer s"
  "qualityMonitorTimer (monitorTick s) = qualityMonitorTimer s"
  "clock (monitorTick s) = clock s"
  "commands (monitorTick s) = commands s"
  "lowBandwidthMode (monitorTick s) = lowBandwidthMode s"
  "playerContainer (monitorTick s) = playerContainer s"
  by (simp_all add: monitorTick_def Let_def)

lemma wf_monitorTick [simp]: "wf (monitorTick s) = wf s"
  by (rule wf_cong) simp_all

lemma kept_monitorTick [simp]: "kept P (monitorTick s) = kept P s"
  by (simp add: kept_def)

lemma wf_readyDeferred: "wf s \<Longrightarrow> wf (readyDeferred s)"
  by (simp add: readyDeferred_def wf_startQualityMonitor wf_enforceLowQuality)

lemma kept_readyDeferred:
  "wf s \<Longrightarrow> \<not> P RetryCb \<Longrightarrow> \<not> P MonitorCb \<Longrightarrow> kept P (readyDeferred s) = kept P s"
  by (simp add: readyDeferred_def kept_startQualityMonitor kept_enforceLowQuality
      wf_enforceLowQuality)

lemma simEnd_error: "simEnd m s = Inl (ReferenceError ''removeSimulateOverlay'')"
  by (simp add: simEnd_def simEndWith_def removeSimulateOverlay_def)

lemma wf_runCallback: "wf s \<Longrightarrow> wf (runCallback c s)"
  by (cases c) (simp_all add: runCallback_def wf_pauseDestroy wf_retryTick wf_readyDeferred
      simEnd_error)

lemma kept_runCallback:
  "wf s \<Longrightarrow> \<not> P RetryCb \<Longrightarrow> \<not> P MonitorCb \<Longrightarrow> kept P (runCallback c s) = kept P s"
  by (cases c) (simp_all add: runCallback_def kept_pauseDestroy kept_retryTick
      kept_readyDeferred simEnd_error)

section \<open>Firing timers\<close>

lemma find_tid: "find (\<lambda>t. tid t = i) ts = Some t \<Longrightarrow> t \<in> set ts \<and> tid t = i"
  by (induction ts) (auto split: if_splits)

lemma find_tid_none: "find (\<lambda>t. tid t = i) ts = None \<Longrightarrow> \<forall>t\<in>set ts. tid t \<noteq> i"
  by (induction ts) (auto split: if_splits)

lemma bump_due_simps [simp]:
  "tid (if b then u\<lparr>due := x\<rparr> else u) = tid u"
  "cb (if b then u\<lparr>due := x\<rparr> else u) = cb u"
  by simp_all

lemma wf_reschedule:
  "wf s \<Longrightarrow> wf (s\<lparr>clock := k, timers := reschedule t (timers s)\<rparr>)"
proof (cases "period t")
  case None
  assume "wf s"
  then show ?thesis using None
    unfolding wf_def by (simp add: reschedule_def list_all_iff fresh_iff distinct_map_filter)
next
  case (Some per)
  assume "wf s"
  then show ?thesis using Some
    unfolding wf_def by (simp add: reschedule_def list.pred_map fresh_iff comp_def)
qed

lemma kept_reschedule:
  "wf s \<Longrightarrow> t \<in> set (timers s) \<Longrightarrow> \<not> P (cb t) \<Longrightarrow>
   kept P (s\<lparr>clock := k, timers := reschedule t (timers s)\<rparr>) = kept P s"
proof -
  assume w: "wf s" and t: "t \<in> set (timers s)" and p: "\<not> P (cb t)"
  have d: "distinct (map tid (timers s))" using w by (simp add: wf_def)
  have u: "\<And>u. u \<in> set (timers s) \<Longrightarrow> tid u = tid t \<Longrightarrow> u = t"
    using d t by (meson distinct_map inj_onD)
  show ?thesis
  proof (cases "period t")
    case None
    then show ?thesis using p u
      by (auto simp: kept_def reschedule_def intro!: filter_cong)
  next
    case (Some per)
    have "filter (\<lambda>x. P (cb x)) (map (\<lambda>u. if tid u = tid t then u\<lparr>due := due u + per\<rparr> else u) ts)
        = filter (\<lambda>x. P (cb x)) ts" if "\<And>u. u \<in> set ts \<Longrightarrow> tid u = tid t \<Longrightarrow> u = t" for ts
      using that p by (induction ts) auto
    then show ?thesis using Some u by (simp add: kept_def reschedule_def)
  qed
qed

lemma fire_none: "find (\<lambda>t. tid t = i) (timers s) = None \<Longrightarrow> fire i s = s"
  by (simp add: fire_def)

lemma fire_some:
  "find (\<lambda>t. tid t = i) (timers s) = Some t \<Longrightarrow>
   fire i s = runCallback (cb t) (s\<lparr>clock := max (clock s) (due t), timers := reschedule t (timers s)\<rparr>)"
  by (simp add: fire_def)

lemma wf_fire: "wf s \<Longrightarrow> wf (fire i s)"
  by (cases "find (\<lambda>t. tid t = i) (timers s)")
     (simp_all add: fire_none fire_some wf_runCallback wf_reschedule)

lemma kept_fire:
  "wf s \<Longrightarrow> find (\<lambda>t. tid t = i) (timers s) = Some t \<Longrightarrow> \<not> P (cb t) \<Longrightarrow>
   \<not> P RetryCb \<Longrightarrow> \<not> P MonitorCb \<Longrightarrow> kept P (fire i s) = kept P s"
  using find_tid [of i "timers s" t]
  by (simp add: fire_some kept_runCallback wf_reschedule kept_reschedule)

lemma wf_step: "wf s \<Longrightarrow> step e s = Some s' \<Longrightarrow> wf s'"
  by (cases e)
     (auto simp: step_def wf_loadButtonClick wf_facadeClick wf_onPlayerReady
        wf_onPlayerStateChange wf_onPlayerQualityChange wf_qualityButtonClick wf_simulate
        wf_fire split: if_splits container.splits simp del: not_None_eq)

lemma wf_exec: "wf s \<Longrightarrow> exec es s = Some s' \<Longrightarrow> wf s'"
  by (induction es arbitrary: s) (auto split: option.splits dest: wf_step)

lemma wf_initial: "wf initial"
  by (simp add: wf_def initial_def fresh_def)

section \<open>What each event leaves alone\<close>

lemma toggle_frame [simp]:
  "player (toggleLowInternetMode s) = player s"
  "pauseDestroyTimer (toggleLowInternetMode s) = pauseDestroyTimer s"
  "clock (toggleLowInternetMode s) = clock s"
  by (simp_all add: toggleLowInternetMode_def Let_def del: not_None_eq)

lemma qualityButtonClick_frame [simp]:
  "player (qualityButtonClick s) = player s"
  "pauseDestroyTimer (qualityButtonClick s) = pauseDestroyTimer s"
  "clock (qualityButtonClick s) = clock s"
  by (simp_all add: qualityButtonClick_def Let_def)

lemma onPlayerQualityChange_frame [simp]:
  "player (onPlayerQualityChange q s) = player s"
  "pauseDestroyTimer (onPlayerQualityChange q s) = pauseDestroyTimer s"
  "clock (onPlayerQualityChange q s) = clock s"
  "commands (onPlayerQualityChange q s) = commands s"
  by (simp_all add: onPlayerQualityChange_def Let_def)

lemma loadButtonClick_frame [simp]:
  "player (loadButtonClick url s) = player s"
  "pauseDestroyTimer (loadButtonClick url s) = pauseDestroyTimer s"
  "clock (loadButtonClick url s) = clock s"
  "commands (loadButtonClick url s) = commands s"
  by (simp_all add: loadButtonClick_def Let_def createFacade_def)

lemma facadeClick_frame [simp]:
  "pauseDestroyTimer (facadeClick p s) = pauseDestroyTimer s"
  "qualityRetryTimer (facadeClick p s) = qualityRetryTimer s"
  "clock (facadeClick p s) = clock s"
  "commands (facadeClick p s) = commands s"
  "timers (facadeClick p s) = timers s"
  by (simp_all add: facadeClick_def createPlayer_def split: container.splits)

lemma facadeClick_player: "playerContainer s = Facade v t \<Longrightarrow> player (facadeClick p s) = Some p"
  by (simp add: facadeClick_def createPlayer_def)

lemma onPlayerReady_frame [simp]:
  "player (onPlayerReady s) = player s"
  "pauseDestroyTimer (onPlayerReady s) = pauseDestroyTimer s"
  "clock (onPlayerReady s) = clock s"
  by (simp_all add: onPlayerReady_def Let_def)

lemma simulate_frame [simp]:
  "player (simulateLowInternetExperience s) = player s"
  "pauseDestroyTimer (simulateLowInternetExperience s) = pauseDestroyTimer s"
  "clock (simulateLowInternetExperience s) = clock s"
  "commands (simulateLowInternetExperience s) = commands s"
  "qualityRetryTimer (simulateLowInternetExperience s) = None"
  "lowBandwidthMode (simulateLowInternetExperience s) = False"
  "buttonDisabled (simulateLowInternetExperience s) = True"
  "statusText (simulateLowInternetExperience s) = ''Simulating low internet...''"
  "simulateOverlay (simulateLowInternetExperience s) = True"
  by (simp_all add: simulateLowInternetExperience_def Let_def createSimulateOverlay_def)

lemma onPlayerStateChange_frame [simp]:
  "player (onPlayerStateChange d s) = player s"
  "clock (onPlayerStateChange d s) = clock s"
  by (simp_all add: onPlayerStateChange_def Let_def removePauseOverlay_def case_prod_beta
      split: option.splits)

lemma onPlayerStateChange_other:
  "d \<noteq> PLAYING \<Longrightarrow> \<not> pauseSignal d \<Longrightarrow> onPlayerStateChange d s = s"
  by (simp add: onPlayerStateChange_def pauseSignal_def)

lemma readyDeferred_frame [simp]:
  "player (readyDeferred s) = player s"
  "pauseDestroyTimer (readyDeferred s) = pauseDestroyTimer s"
  "clock (readyDeferred s) = clock s"
  by (simp_all add: readyDeferred_def)

lemma runCallback_frame:
  "\<not> isPauseCb c \<Longrightarrow> player (runCallback c s) = player s"
  "pauseDestroyTimer (runCallback c s) = pauseDestroyTimer s"
  "clock (runCallback c s) = clock s"
  by (cases c; simp add: runCallback_def simEnd_error pauseDestroy_fields isPauseCb_def)+

lemma fire_frame:
  "find (\<lambda>t. tid t = i) (timers s) = Some t \<Longrightarrow> \<not> isPauseCb (cb t) \<Longrightarrow>
     player (fire i s) = player s"
  "pauseDestroyTimer (fire i s) = pauseDestroyTimer s"
  "find (\<lambda>t. tid t = i) (timers s) = Some t \<Longrightarrow> clock (fire i s) = max (clock s) (due t)"
  by (cases "find (\<lambda>t. tid t = i) (timers s)"; simp add: fire_none fire_some runCallback_frame)+


section \<open>The pending teardown\<close>

lemma kept_mem: "t \<in> set (kept P s) \<longleftrightarrow> t \<in> set (timers s) \<and> P (cb t)"
  by (simp add: kept_def)

lemma not_pause_simps [simp]:
  "\<not> isPauseCb RetryCb" "\<not> isPauseCb MonitorCb" "\<not> isPauseCb ReadyCb"
  "\<not> isPauseCb (SimStatusCb m)" "\<not> isPauseCb (SimEndCb m)" "isPauseCb (PauseDestroyCb d)"
  by (simp_all add: isPauseCb_def)

lemma playing_clears_pause:
  assumes "wf s"
  shows "pauseDestroyTimer (onPlayerStateChange PLAYING s) = None \<and>
         kept isPauseCb (onPlayerStateChange PLAYING s) = []"
proof -
  let ?s3 = "removePauseOverlay
     (if lowBandwidthMode s then enforceLowQuality (s\<lparr>buttonHidden := False\<rparr>)
      else s\<lparr>buttonHidden := False\<rparr>)"
  have w3: "wf ?s3" using assms by (simp add: removePauseOverlay_def wf_enforceLowQuality)
  have e: "onPlayerStateChange PLAYING s =
      (case pauseDestroyTimer ?s3 of None \<Rightarrow> ?s3
       | Some i \<Rightarrow> (clearTimer i ?s3)\<lparr>pauseDestroyTimer := None\<rparr>)"
    by (simp add: onPlayerStateChange_def Let_def)
  show ?thesis
  proof (cases "pauseDestroyTimer ?s3")
    case None
    then show ?thesis using pause_none_kept [OF w3 None] e by simp
  next
    case (Some i)
    then show ?thesis using wf_clearPause [OF w3 Some] e by simp
  qed
qed

lemma pause_arms:
  assumes "wf s" and "pauseSignal d"
  shows "pauseDestroyTimer (onPlayerStateChange d s) = Some (nextTimerId s) \<and>
         kept isPauseCb (onPlayerStateChange d s) =
           [\<lparr>tid = nextTimerId s, due = clock s + 350, period = None, cb = PauseDestroyCb d\<rparr>] \<and>
         commands (onPlayerStateChange d s) = commands s"
proof -
  let ?s0 = "case pauseDestroyTimer s of None \<Rightarrow> s | Some i \<Rightarrow> clearTimer i s"
  have k0: "kept isPauseCb ?s0 = []"
    using assms(1) wf_clearPause [of s] pause_none_kept [of s] by (auto split: option.splits)
  have f: "nextTimerId ?s0 = nextTimerId s" "clock ?s0 = clock s" "commands ?s0 = commands s"
    by (simp_all split: option.splits)
  have e: "onPlayerStateChange d s =
      (snd (setTimer (PauseDestroyCb d) 350 None ?s0))\<lparr>pauseDestroyTimer := Some (nextTimerId ?s0)\<rparr>"
    using assms(2)
    by (auto simp: onPlayerStateChange_def pauseSignal_def Let_def setTimer_def split: option.splits)
  show ?thesis unfolding e using k0 f by (simp add: kept_setTimer)
qed

lemma pending_step:
  assumes w: "wf s" and pl: "player s \<noteq> None" and h: "pauseDestroyTimer s = Some i"
    and k: "kept isPauseCb s = [t]" and c: "clock s \<le> due t"
    and st: "step e s = Some s'" and q: "\<not> lifecycleSignal e" and n: "e \<noteq> TimerFires i"
  shows "wf s' \<and> player s' \<noteq> None \<and> pauseDestroyTimer s' = Some i \<and>
         kept isPauseCb s' = [t] \<and> clock s' \<le> due t"
proof -
  have w': "wf s'" using w st by (rule wf_step)
  have tin: "t \<in> set (timers s)" "isPauseCb (cb t)"
    using k kept_mem [of t isPauseCb s] by simp_all
  have ti: "tid t = i" using w tin h by (auto simp: wf_def list_all_iff)
  have rest: "player s' \<noteq> None \<and> pauseDestroyTimer s' = Some i \<and>
         kept isPauseCb s' = [t] \<and> clock s' \<le> due t"
  proof (cases e)
    case (LoadClick url)
    then show ?thesis using st w pl h k c kept_loadButtonClick [of s isPauseCb url]
      by (simp add: step_def del: not_None_eq) (auto simp del: not_None_eq)
  next
    case (FacadeClick p)
    then show ?thesis using st w pl h k c
      by (auto simp: step_def kept_facadeClick facadeClick_player split: container.splits
          simp del: not_None_eq)
  next
    case PlayerReady
    then show ?thesis using st w pl h k c
      by (auto simp: step_def kept_onPlayerReady split: if_splits simp del: not_None_eq)
  next
    case (StateChange d)
    then show ?thesis using st w pl h k c q
      by (auto simp: step_def lifecycleSignal_def onPlayerStateChange_other split: if_splits
          simp del: not_None_eq)
  next
    case (QualityChange x)
    then show ?thesis using st w pl h k c
      by (auto simp: step_def kept_onPlayerQualityChange split: if_splits simp del: not_None_eq)
  next
    case QualityClick
    then show ?thesis using st w pl h k c
      by (auto simp: step_def kept_qualityButtonClick split: if_splits simp del: not_None_eq)
  next
    case Simulate
    then show ?thesis using st w pl h k c
      by (auto simp: step_def kept_simulate simp del: not_None_eq)
  next
    case (PlayerReports p)
    then show ?thesis using st w pl h k c
      by (auto simp: step_def split: if_splits simp del: not_None_eq)
  next
    case (TimerFires j)
    have ji: "j \<noteq> i" using n TimerFires by simp
    from st TimerFires have en: "earliest j s" and s': "s' = fire j s"
      by (auto simp: step_def split: if_splits)
    from en obtain u where u: "find (\<lambda>t. tid t = j) (timers s) = Some u"
      and le: "list_all (\<lambda>v. due u \<le> due v) (timers s)"
      by (auto simp: earliest_def split: option.splits)
    have uin: "u \<in> set (timers s)" "tid u = j" using find_tid [OF u] by simp_all
    have np: "\<not> isPauseCb (cb u)"
    proof
      assume "isPauseCb (cb u)"
      then have "u \<in> set (kept isPauseCb s)" using uin by (simp add: kept_mem)
      then show False using k uin ti ji by simp
    qed
    have "due u \<le> due t" using le tin by (simp add: list_all_iff)
    then show ?thesis
      using s' w pl h k c u np fire_frame(1) [of j s u] fire_frame(2) [of j s]
        fire_frame(3) [of j s u] kept_fire [of s j u isPauseCb]
      by (simp del: not_None_eq)
  next
    case (At x)
    then show ?thesis using st w pl h k c tin
      by (auto simp: step_def kept_def list_all_iff split: if_splits simp del: not_None_eq)
  qed
  show ?thesis using w' rest by simp
qed

lemma pending_exec:
  assumes "exec es s = Some s'" and "wf s" and "player s \<noteq> None"
    and "pauseDestroyTimer s = Some i" and "kept isPauseCb s = [t]" and "clock s \<le> due t"
    and "\<forall>e\<in>set es. \<not> lifecycleSignal e \<and> e \<noteq> TimerFires i"
  shows "wf s' \<and> player s' \<noteq> None \<and> pauseDestroyTimer s' = Some i \<and>
         kept isPauseCb s' = [t] \<and> clock s' \<le> due t"
  using assms
proof (induction es arbitrary: s)
  case Nil
  then show ?case by simp
next
  case (Cons e es)
  from Cons.prems(1) obtain s1 where s1: "step e s = Some s1" and r: "exec es s1 = Some s'"
    by (auto split: option.splits)
  have "wf s1 \<and> player s1 \<noteq> None \<and> pauseDestroyTimer s1 = Some i \<and>
         kept isPauseCb s1 = [t] \<and> clock s1 \<le> due t"
    using pending_step [OF Cons.prems(2-6) s1] Cons.prems(7) by simp
  then show ?case using Cons.IH [OF r] Cons.prems(7) by simp
qed

lemma idle_step:
  assumes w: "wf s" and pl: "player s \<noteq> None" and k: "kept isPauseCb s = []"
    and st: "step e s = Some s'" and q: "\<not> pauseEvent e"
  shows "wf s' \<and> player s' \<noteq> None \<and> kept isPauseCb s' = []"
proof -
  have w': "wf s'" using w st by (rule wf_step)
  have rest: "player s' \<noteq> None \<and> kept isPauseCb s' = []"
  proof (cases e)
    case (LoadClick url)
    then show ?thesis using st w pl k kept_loadButtonClick [of s isPauseCb url]
      by (simp add: step_def del: not_None_eq) (auto simp del: not_None_eq)
  next
    case (FacadeClick p)
    then show ?thesis using st w pl k
      by (auto simp: step_def kept_facadeClick facadeClick_player split: container.splits
          simp del: not_None_eq)
  next
    case PlayerReady
    then show ?thesis using st w pl k
      by (auto simp: step_def kept_onPlayerReady split: if_splits simp del: not_None_eq)
  next
    case (StateChange d)
    show ?thesis
    proof (cases "d = PLAYING")
      case True
      then show ?thesis using StateChange st pl playing_clears_pause [OF w]
        by (auto simp: step_def split: if_splits simp del: not_None_eq)
    next
      case False
      then show ?thesis using StateChange st w pl k q
        by (auto simp: step_def pauseEvent_def onPlayerStateChange_other split: if_splits
            simp del: not_None_eq)
    qed
  next
    case (QualityChange x)
    then show ?thesis using st w pl k
      by (auto simp: step_def kept_onPlayerQualityChange split: if_splits simp del: not_None_eq)
  next
    case QualityClick
    then show ?thesis using st w pl k
      by (auto simp: step_def kept_qualityButtonClick split: if_splits simp del: not_None_eq)
  next
    case Simulate
    then show ?thesis using st w pl k
      by (auto simp: step_def kept_simulate simp del: not_None_eq)
  next
    case (PlayerReports p)
    then show ?thesis using st w pl k
      by (auto simp: step_def split: if_splits simp del: not_None_eq)
  next
    case (TimerFires j)
    from st TimerFires have en: "earliest j s" and s': "s' = fire j s"
      by (auto simp: step_def split: if_splits)
    from en obtain u where u: "find (\<lambda>t. tid t = j) (timers s) = Some u"
      by (auto simp: earliest_def split: option.splits)
    have uin: "u \<in> set (timers s)" using find_tid [OF u] by simp
    have np: "\<not> isPauseCb (cb u)"
    proof
      assume "isPauseCb (cb u)"
      then have "u \<in> set (kept isPauseCb s)" using uin by (simp add: kept_mem)
      then show False using k by simp
    qed
    show ?thesis
      using s' w pl k u np fire_frame(1) [of j s u] kept_fire [of s j u isPauseCb]
      by (simp del: not_None_eq)
  next
    case (At x)
    then show ?thesis using st w pl k
      by (auto simp: step_def kept_def split: if_splits simp del: not_None_eq)
  qed
  show ?thesis using w' rest by simp
qed

lemma idle_exec:
  assumes "exec es s = Some s'" and "wf s" and "player s \<noteq> None" and "kept isPauseCb s = []"
    and "\<forall>e\<in>set es. \<not> pauseEvent e"
  shows "wf s' \<and> player s' \<noteq> None \<and> kept isPauseCb s' = []"
  using assms
proof (induction es arbitrary: s)
  case Nil
  then show ?case by simp
next
  case (Cons e es)
  from Cons.prems(1) obtain s1 where s1: "step e s = Some s1" and r: "exec es s1 = Some s'"
    by (auto split: option.splits)
  have "wf s1 \<and> player s1 \<noteq> None \<and> kept isPauseCb s1 = []"
    using idle_step [OF Cons.prems(2-4) s1] Cons.prems(5) by simp
  then show ?case using Cons.IH [OF r] Cons.prems(5) by simp
qed

lemma find_queued:
  "wf s \<Longrightarrow> t \<in> set (timers s) \<Longrightarrow> find (\<lambda>u. tid u = tid t) (timers s) = Some t"
proof -
  assume w: "wf s" and t: "t \<in> set (timers s)"
  have d: "distinct (map tid (timers s))" using w by (simp add: wf_def)
  from t have "find (\<lambda>u. tid u = tid t) (timers s) \<noteq> None"
    by (auto simp: find_None_iff)
  then obtain u where u: "find (\<lambda>u. tid u = tid t) (timers s) = Some u" by auto
  have "u \<in> set (timers s)" "tid u = tid t" using find_tid [OF u] by simp_all
  then have "u = t" using d t by (meson distinct_map inj_onD)
  then show ?thesis using u by simp
qed

lemma capturedTime_cong:
  "player s' = player s \<Longrightarrow> lastPlaybackTime s' = lastPlaybackTime s \<Longrightarrow>
   capturedTime s' = capturedTime s"
  by (simp add: capturedTime_def safeGetCurrentTime_def split: option.splits)

lemma teardown_fire:
  assumes w: "wf s" and k: "kept isPauseCb s = [t]" and t: "cb t = PauseDestroyCb d"
    and per: "period t = None" and pl: "player s \<noteq> None" and c: "clock s \<le> due t"
  shows "clock (fire (tid t) s) = due t \<and> player (fire (tid t) s) = None \<and>
     commands (fire (tid t) s) = commands s @ [Destroy] \<and>
     playerContainer (fire (tid t) s) = Facade (currentVideoId s) (lastPlaybackTime (fire (tid t) s)) \<and>
     lastPlaybackTime (fire (tid t) s) = (if d = ENDED then 0 else capturedTime s) \<and>
     qualityRetryTimer (fire (tid t) s) = None \<and> qualityMonitorTimer (fire (tid t) s) = None \<and>
     kept (\<lambda>c. c = RetryCb) (fire (tid t) s) = [] \<and>
     kept (\<lambda>c. c = MonitorCb) (fire (tid t) s) = [] \<and>
     kept isPauseCb (fire (tid t) s) = []"
proof -
  have tin: "t \<in> set (timers s)" using k kept_mem [of t isPauseCb s] by simp
  have f: "find (\<lambda>u. tid u = tid t) (timers s) = Some t" using w tin by (rule find_queued)
  let ?s1 = "s\<lparr>clock := max (clock s) (due t), timers := reschedule t (timers s)\<rparr>"
  have e: "fire (tid t) s = pauseDestroy d ?s1"
    using f t by (simp add: fire_some runCallback_def)
  have w1: "wf ?s1" using w by (rule wf_reschedule)
  have k1: "kept isPauseCb ?s1 = []"
  proof -
    have "kept isPauseCb ?s1 = filter (\<lambda>u. tid u \<noteq> tid t) (kept isPauseCb s)"
      using per by (auto simp: kept_def reschedule_def intro: filter_cong)
    then show ?thesis using k by simp
  qed
  have ct: "capturedTime ?s1 = capturedTime s" by (rule capturedTime_cong) simp_all
  have "kept isPauseCb (pauseDestroy d ?s1) = kept isPauseCb ?s1"
    using w1 by (rule kept_pauseDestroy) simp_all
  then show ?thesis
    unfolding e using kept_pauseDestroy_cleared [OF w1, of d] k1 ct pl c
    by (simp add: pauseDestroy_fields max_def del: not_None_eq)
qed

lemma capturedTime_cases:
  "(\<forall>x. safeGetCurrentTime s = Some x \<and> x \<noteq> 0 \<longrightarrow> capturedTime s = x) \<and>
   (safeGetCurrentTime s = None \<longrightarrow> capturedTime s = lastPlaybackTime s)"
  by (simp add: capturedTime_def)

section \<open>Running the example pages\<close>

lemma demoUrl_id: "getYouTubeID demoUrl = Some ''dQw4w9WgXcQ''"
  by code_simp

lemma playing_eq:
  "playing =
     initial\<lparr>player := Some demoPlayer, currentVideoId := Some ''dQw4w9WgXcQ'',
       playerContainer := PlayerTarget, buttonHidden := False\<rparr>"
  by (simp add: playing_def loadButtonClick_def demoUrl_id orElse_def Let_def createFacade_def
      clearQualityRetry_def clearQualityMonitor_def facadeClick_def createPlayer_def
      onPlayerStateChange_def removePauseOverlay_def initial_def)

lemmas run =
  step_def onPlayerStateChange_def setTimer_def clearTimer_def Let_def removePauseOverlay_def
  playing_eq initial_def earliest_def

lemma wf_playing: "wf playing"
  by (simp add: playing_eq initial_def wf_def fresh_def)

section \<open>The enforcement target\<close>

lemma find_first_rank:
  "find (\<lambda>q. q \<in> A) xs = Some q \<Longrightarrow>
     q \<in> set xs \<and> q \<in> A \<and>
     (\<forall>r\<in>A. length (takeWhile (\<lambda>x. x \<noteq> q) xs) \<le> length (takeWhile (\<lambda>x. x \<noteq> r) xs))"
  by (induction xs) (auto split: if_splits)

lemma find_none_iff_disjoint: "find (\<lambda>q. q \<in> A) xs = None \<longleftrightarrow> (\<forall>q\<in>set xs. q \<notin> A)"
  by (induction xs) auto

text \<open>
  C4. Whatever the player reports as its available levels: when the report cannot be
  read (no player, a failing call, not an array) or is empty, the target is \<open>small\<close>;
  when the report holds at least one of the seven levels, the target is one of the
  reported levels, is one of the seven, and no reported level of the seven ranks below
  it in tiny < small < medium < large < hd720 < hd1080 < highres.
\<close>

theorem target_is_lowest_reported_level:
  "(safeGetAvailableQualityLevels s = None \<or> safeGetAvailableQualityLevels s = Some []
      \<longrightarrow> targetQuality s = ''small'') \<and>
   (\<forall>levels. safeGetAvailableQualityLevels s = Some levels \<and>
        (\<exists>q\<in>set levels. q \<in> set QUALITY_ORDER) \<longrightarrow>
        targetQuality s \<in> set levels \<and> targetQuality s \<in> set QUALITY_ORDER \<and>
        (\<forall>q\<in>set levels. q \<in> set QUALITY_ORDER \<longrightarrow>
            qualityRank (targetQuality s) \<le> qualityRank q))"
proof (intro conjI allI impI)
  assume "safeGetAvailableQualityLevels s = None \<or> safeGetAvailableQualityLevels s = Some []"
  then show "targetQuality s = ''small''"
    by (auto simp: targetQuality_def getLowestAvailableQuality_def orElse_def)
next
  fix levels
  assume a: "safeGetAvailableQualityLevels s = Some levels \<and>
    (\<exists>q\<in>set levels. q \<in> set QUALITY_ORDER)"
  then have ne: "levels \<noteq> []" by auto
  from a have "find (\<lambda>q. q \<in> set levels) QUALITY_ORDER \<noteq> None"
    by (auto simp: find_none_iff_disjoint)
  then obtain q where q: "find (\<lambda>q. q \<in> set levels) QUALITY_ORDER = Some q" by auto
  have nonempty: "q \<noteq> []" using find_first_rank [OF q] by (auto simp: QUALITY_ORDER_def)
  have t: "targetQuality s = q"
    using a ne q nonempty by (simp add: targetQuality_def getLowestAvailableQuality_def orElse_def)
  show "targetQuality s \<in> set levels" using find_first_rank [OF q] t by simp
  show "targetQuality s \<in> set QUALITY_ORDER" using find_first_rank [OF q] t by simp
  show "\<forall>q\<in>set levels. q \<in> set QUALITY_ORDER \<longrightarrow>
      qualityRank (targetQuality s) \<le> qualityRank q"
    using find_first_rank [OF q] t by (simp add: qualityRank_def)
qed

theorem target_is_lowest_reported_level_witness:
  "safeGetAvailableQualityLevels (playing\<lparr>player := Some noLevelsPlayer\<rparr>) = None \<and>
   targetQuality (playing\<lparr>player := Some noLevelsPlayer\<rparr>) = ''small'' \<and>
   safeGetAvailableQualityLevels playing = Some [''hd720'', ''medium'', ''small'', ''auto''] \<and>
   ''small'' \<in> set [''hd720'', ''medium'', ''small'', ''auto''] \<and>
   ''small'' \<in> set QUALITY_ORDER \<and>
   targetQuality playing \<in> set QUALITY_ORDER \<and>
   qualityRank (targetQuality playing) \<le> qualityRank ''medium'' \<and>
   qualityRank (targetQuality playing) \<le> qualityRank ''hd720''"
proof -
  have n: "safeGetAvailableQualityLevels (playing\<lparr>player := Some noLevelsPlayer\<rparr>) = None"
    by (simp add: safeGetAvailableQualityLevels_def noLevelsPlayer_def)
  have l: "safeGetAvailableQualityLevels playing = Some [''hd720'', ''medium'', ''small'', ''auto'']"
    by code_simp
  have m: "''small'' \<in> set [''hd720'', ''medium'', ''small'', ''auto''] \<and>
      ''small'' \<in> set QUALITY_ORDER \<and> ''medium'' \<in> set QUALITY_ORDER \<and>
      ''hd720'' \<in> set QUALITY_ORDER"
    by (simp add: QUALITY_ORDER_def)
  show ?thesis
    using n l m
      target_is_lowest_reported_level [of "playing\<lparr>player := Some noLevelsPlayer\<rparr>"]
      target_is_lowest_reported_level [of playing]
    by auto
qed

text \<open>
  C10. When the player reports a non-empty list that holds none of the seven levels,
  \<open>getLowestAvailableQuality\<close> returns the last element of the list, and the target is
  that element (unless it is the empty string), a name outside the seven.
\<close>

theorem lowest_falls_back_to_last_reported:
  assumes "safeGetAvailableQualityLevels s = Some levels" and "levels \<noteq> []"
    and "\<forall>q\<in>set levels. q \<notin> set QUALITY_ORDER"
  shows "getLowestAvailableQuality s = Some (last levels) \<and>
         (last levels \<noteq> [] \<longrightarrow>
            targetQuality s = last levels \<and> targetQuality s \<notin> set QUALITY_ORDER)"
proof -
  have "find (\<lambda>q. q \<in> set levels) QUALITY_ORDER = None"
    using assms(3) by (auto simp: find_none_iff_disjoint)
  then have g: "getLowestAvailableQuality s = Some (last levels)"
    using assms(1,2) by (simp add: getLowestAvailableQuality_def)
  have "last levels \<notin> set QUALITY_ORDER" using assms(2,3) by simp
  then show ?thesis using g by (simp add: targetQuality_def orElse_def)
qed

theorem lowest_falls_back_to_last_reported_witness:
  "safeGetAvailableQualityLevels (playing\<lparr>player := Some oddLevelsPlayer\<rparr>)
     = Some [''hd2160'', ''hd1440'', ''auto''] \<and>
   getLowestAvailableQuality (playing\<lparr>player := Some oddLevelsPlayer\<rparr>) = Some ''auto'' \<and>
   targetQuality (playing\<lparr>player := Some oddLevelsPlayer\<rparr>) = ''auto'' \<and>
   ''auto'' \<notin> set QUALITY_ORDER"
proof -
  have l: "safeGetAvailableQualityLevels (playing\<lparr>player := Some oddLevelsPlayer\<rparr>)
      = Some [''hd2160'', ''hd1440'', ''auto'']"
    by (simp add: safeGetAvailableQualityLevels_def oddLevelsPlayer_def)
  have d: "\<forall>q\<in>set [''hd2160'', ''hd1440'', ''auto'']. q \<notin> set QUALITY_ORDER"
    by (simp add: QUALITY_ORDER_def)
  show ?thesis
    using l lowest_falls_back_to_last_reported [OF l _ d] by auto
qed

section \<open>Loading a link\<close>

text \<open>
  C9. A load request whose text yields no identifier raises the validation notice and
  changes nothing else: the state after the click is the state before it with the
  notice added to the alerts shown.
\<close>

theorem load_without_identifier_only_alerts:
  "getYouTubeID url = None \<Longrightarrow>
     loadButtonClick url s =
       s\<lparr>alerts := alerts s @ [''Please enter a valid YouTube video link!'']\<rparr>"
  by (simp add: loadButtonClick_def orElse_def)

theorem load_without_identifier_only_alerts_witness:
  "getYouTubeID ''not a link'' = None \<and>
   loadButtonClick ''not a link'' playing =
     playing\<lparr>alerts := alerts playing @ [''Please enter a valid YouTube video link!'']\<rparr>"
proof -
  have n: "getYouTubeID ''not a link'' = None" by code_simp
  show ?thesis using n load_without_identifier_only_alerts [OF n, of playing] by simp
qed

section \<open>Debounced teardown\<close>

lemma restart_steps:
  "step (StateChange PAUSED) playing = Some pausedOnce"
  "step (At 200) pausedOnce = Some (pausedOnce\<lparr>clock := 200\<rparr>)"
  "step (StateChange PAUSED) (pausedOnce\<lparr>clock := 200\<rparr>) = Some pausedTwice"
  "step (At 400) pausedTwice = Some (pausedTwice\<lparr>clock := 400\<rparr>)"
  "step (StateChange PLAYING) (pausedTwice\<lparr>clock := 400\<rparr>)
     = Some (playing\<lparr>nextTimerId := 3, clock := 400\<rparr>)"
  "step (At 60000) (playing\<lparr>nextTimerId := 3, clock := 400\<rparr>)
     = Some (playing\<lparr>nextTimerId := 3, clock := 60000\<rparr>)"
  by (simp_all add: run pausedOnce_def pausedTwice_def)

text \<open>
  C1, as stated, fails. A paused signal arrives at time 0 while a player exists, a second
  paused signal at 200 ms, and the first playing signal only at 400 ms, after the 350 ms
  of the first signal have passed. The second signal has cancelled the first timeout and
  armed its own, due at 550 ms, which the playing signal cancels: at 400 ms the player is
  still there, and a minute later the page is as it was before the first signal (only
  the clock and the timer id counter have moved), with no timer queued.
\<close>

theorem debounce_restarts_counterexample:
  "exec [StateChange PAUSED, At 200, StateChange PAUSED, At 400] playing
     = Some (pausedTwice\<lparr>clock := 400\<rparr>) \<and>
   player (pausedTwice\<lparr>clock := 400\<rparr>) = Some demoPlayer \<and>
   exec [StateChange PAUSED, At 200, StateChange PAUSED, At 400, StateChange PLAYING, At 60000]
     playing = Some (playing\<lparr>nextTimerId := 3, clock := 60000\<rparr>) \<and>
   player playing = Some demoPlayer \<and> timers playing = []"
  by (simp add: restart_steps) (simp add: pausedTwice_def playing_eq initial_def)

text \<open>
  C1, amended. Let a paused, ended or cued signal arrive while a player exists. The
  signal cancels any pending teardown and arms a new one, due 350 ms later. As long as
  no further playing, paused, ended or cued signal arrives and that timeout has not
  fired (whatever else happens: other timers, clicks, loads, quality reports), the
  player stays, at most 350 ms have passed, and the timeout stays queued. From there:
  \<^item> a playing signal cancels the timeout and clears the handle, the player stays, and
    no later run of events without a paused, ended or cued signal removes the player;
  \<^item> when the timeout fires, the clock stands 350 ms after the signal, the player is
    destroyed and forgotten, the retry and monitor intervals are cleared, and the facade
    is rendered again for the current identifier with the captured position as offset:
    0 after an ended signal, otherwise the position read from the player when that is a
    number other than 0, and the last known position when the read fails.
\<close>

theorem debounce_commits_or_cancels:
  assumes "wf s" and "player s \<noteq> None" and "pauseSignal d"
    and "exec es (onPlayerStateChange d s) = Some s2"
    and "\<forall>e\<in>set es. \<not> lifecycleSignal e \<and> e \<noteq> TimerFires (nextTimerId s)"
  shows
    "player s2 \<noteq> None \<and> clock s2 \<le> clock s + 350 \<and>
     kept isPauseCb s2 =
       [\<lparr>tid = nextTimerId s, due = clock s + 350, period = None, cb = PauseDestroyCb d\<rparr>] \<and>
     (\<forall>s3. step (StateChange PLAYING) s2 = Some s3 \<longrightarrow>
        pauseDestroyTimer s3 = None \<and> kept isPauseCb s3 = [] \<and> player s3 = player s2 \<and>
        (\<forall>es' s4. exec es' s3 = Some s4 \<and> (\<forall>e\<in>set es'. \<not> pauseEvent e) \<longrightarrow>
            player s4 \<noteq> None \<and> kept isPauseCb s4 = [])) \<and>
     (\<forall>s3. step (TimerFires (nextTimerId s)) s2 = Some s3 \<longrightarrow>
        clock s3 = clock s + 350 \<and> player s3 = None \<and>
        commands s3 = commands s2 @ [Destroy] \<and>
        playerContainer s3 = Facade (currentVideoId s2) (lastPlaybackTime s3) \<and>
        (d = ENDED \<longrightarrow> lastPlaybackTime s3 = 0) \<and>
        (d \<noteq> ENDED \<longrightarrow>
           (\<forall>x. safeGetCurrentTime s2 = Some x \<and> x \<noteq> 0 \<longrightarrow> lastPlaybackTime s3 = x) \<and>
           (safeGetCurrentTime s2 = None \<longrightarrow> lastPlaybackTime s3 = lastPlaybackTime s2)) \<and>
        qualityRetryTimer s3 = None \<and> qualityMonitorTimer s3 = None \<and>
        kept (\<lambda>c. c = RetryCb) s3 = [] \<and> kept (\<lambda>c. c = MonitorCb) s3 = [])"
proof -
  let ?s1 = "onPlayerStateChange d s"
  let ?t = "\<lparr>tid = nextTimerId s, due = clock s + 350, period = None, cb = PauseDestroyCb d\<rparr>"
  have w1: "wf ?s1" using assms(1) by (rule wf_onPlayerStateChange)
  have a: "pauseDestroyTimer ?s1 = Some (nextTimerId s)" "kept isPauseCb ?s1 = [?t]"
    using pause_arms [OF assms(1,3)] by simp_all
  have p1: "player ?s1 \<noteq> None" using assms(2) by simp
  have c1: "clock ?s1 \<le> due ?t" by simp
  have inv: "wf s2 \<and> player s2 \<noteq> None \<and> pauseDestroyTimer s2 = Some (nextTimerId s) \<and>
         kept isPauseCb s2 = [?t] \<and> clock s2 \<le> due ?t"
    using pending_exec [OF assms(4) w1 p1 a c1] assms(5) by simp
  have cancel: "pauseDestroyTimer s3 = None \<and> kept isPauseCb s3 = [] \<and> player s3 = player s2 \<and>
        (\<forall>es' s4. exec es' s3 = Some s4 \<and> (\<forall>e\<in>set es'. \<not> pauseEvent e) \<longrightarrow>
            player s4 \<noteq> None \<and> kept isPauseCb s4 = [])"
    if st: "step (StateChange PLAYING) s2 = Some s3" for s3
  proof -
    have e: "s3 = onPlayerStateChange PLAYING s2"
      using st by (simp add: step_def split: if_splits)
    have w3: "wf s3" using inv st wf_step by blast
    have c: "pauseDestroyTimer s3 = None \<and> kept isPauseCb s3 = []"
      unfolding e using inv playing_clears_pause by blast
    have p3: "player s3 = player s2" unfolding e by simp
    have p3': "player s3 \<noteq> None" using p3 inv by simp
    have "player s4 \<noteq> None \<and> kept isPauseCb s4 = []"
      if "exec es' s3 = Some s4" and "\<forall>e\<in>set es'. \<not> pauseEvent e" for es' s4
      using idle_exec [OF that(1) w3 p3' _ that(2)] c by simp
    then show ?thesis using c p3 by blast
  qed
  have commit: "clock s3 = clock s + 350 \<and> player s3 = None \<and>
        commands s3 = commands s2 @ [Destroy] \<and>
        playerContainer s3 = Facade (currentVideoId s2) (lastPlaybackTime s3) \<and>
        (d = ENDED \<longrightarrow> lastPlaybackTime s3 = 0) \<and>
        (d \<noteq> ENDED \<longrightarrow>
           (\<forall>x. safeGetCurrentTime s2 = Some x \<and> x \<noteq> 0 \<longrightarrow> lastPlaybackTime s3 = x) \<and>
           (safeGetCurrentTime s2 = None \<longrightarrow> lastPlaybackTime s3 = lastPlaybackTime s2)) \<and>
        qualityRetryTimer s3 = None \<and> qualityMonitorTimer s3 = None \<and>
        kept (\<lambda>c. c = RetryCb) s3 = [] \<and> kept (\<lambda>c. c = MonitorCb) s3 = []"
    if st: "step (TimerFires (nextTimerId s)) s2 = Some s3" for s3
  proof -
    have e: "s3 = fire (tid ?t) s2"
      using st by (simp add: step_def split: if_splits)
    have "wf s2" "kept isPauseCb s2 = [?t]" "player s2 \<noteq> None" "clock s2 \<le> due ?t"
      using inv by simp_all
    from teardown_fire [OF this(1,2) _ _ this(3,4), of d]
    show ?thesis unfolding e using capturedTime_cases [of s2] by simp
  qed
  have i1: "player s2 \<noteq> None" using inv by simp
  have i2: "clock s2 \<le> clock s + 350" using inv by simp
  have i3: "kept isPauseCb s2 = [?t]" using inv by simp
  show ?thesis
    by (intro conjI allI impI) (use i1 i2 i3 cancel commit in \<open>blast+\<close>)
qed

theorem debounce_commits_or_cancels_witness:
  "wf playing \<and> player playing \<noteq> None \<and> pauseSignal PAUSED \<and>
   exec [PlayerReports seekingPlayer, At 100] (onPlayerStateChange PAUSED playing) = Some pausedAt100 \<and>
   \<not> lifecycleSignal (PlayerReports seekingPlayer) \<and> \<not> lifecycleSignal (At 100) \<and>
   PlayerReports seekingPlayer \<noteq> TimerFires (nextTimerId playing) \<and>
   At 100 \<noteq> TimerFires (nextTimerId playing) \<and>
   clock pausedAt100 \<le> clock playing + 350 \<and>
   step (StateChange PLAYING) pausedAt100 = Some (onPlayerStateChange PLAYING pausedAt100) \<and>
   kept isPauseCb (onPlayerStateChange PLAYING pausedAt100) = [] \<and>
   player (onPlayerStateChange PLAYING pausedAt100) = Some seekingPlayer \<and>
   step (TimerFires (nextTimerId playing)) pausedAt100 = Some (fire 1 pausedAt100) \<and>
   clock (fire 1 pausedAt100) = 350 \<and> player (fire 1 pausedAt100) = None \<and>
   playerContainer (fire 1 pausedAt100) = Facade (Some ''dQw4w9WgXcQ'') 42"
proof -
  have h1: "wf playing" by (rule wf_playing)
  have h2: "player playing \<noteq> None" by (simp add: playing_eq)
  have h3: "pauseSignal PAUSED" by (simp add: pauseSignal_def)
  have h4: "exec [PlayerReports seekingPlayer, At 100] (onPlayerStateChange PAUSED playing)
      = Some pausedAt100"
    by (simp add: run pausedAt100_def)
  have h5: "\<forall>e\<in>set [PlayerReports seekingPlayer, At 100].
      \<not> lifecycleSignal e \<and> e \<noteq> TimerFires (nextTimerId playing)"
    by (simp add: lifecycleSignal_def)
  have p: "step (StateChange PLAYING) pausedAt100 = Some (onPlayerStateChange PLAYING pausedAt100)"
    by (simp add: step_def pausedAt100_def)
  have f: "step (TimerFires (nextTimerId playing)) pausedAt100 = Some (fire 1 pausedAt100)"
    by (simp add: run pausedAt100_def)
  have v: "clock playing = 0" "currentVideoId pausedAt100 = Some ''dQw4w9WgXcQ''"
    "safeGetCurrentTime pausedAt100 = Some 42" "player pausedAt100 = Some seekingPlayer"
    by (simp_all add: run pausedAt100_def safeGetCurrentTime_def seekingPlayer_def)
  note t = debounce_commits_or_cancels [OF h1 h2 h3 h4 h5]
  have c: "kept isPauseCb (onPlayerStateChange PLAYING pausedAt100) = [] \<and>
      player (onPlayerStateChange PLAYING pausedAt100) = player pausedAt100"
    using t p by blast
  have d: "clock (fire 1 pausedAt100) = clock playing + 350 \<and> player (fire 1 pausedAt100) = None \<and>
      playerContainer (fire 1 pausedAt100) =
        Facade (currentVideoId pausedAt100) (lastPlaybackTime (fire 1 pausedAt100)) \<and>
      lastPlaybackTime (fire 1 pausedAt100) = 42"
    using t f v(3) by (simp add: pauseSignal_def)
  have e: "clock pausedAt100 \<le> clock playing + 350" using t by blast
  show ?thesis using h1 h2 h3 h4 p f v c d e by (simp add: lifecycleSignal_def)
qed

section \<open>Ticks of the retry interval\<close>

lemma converged_iff:
  "player s = Some p \<Longrightarrow> (safeGetPlaybackQuality s = Some (targetQuality s)) = converged p"
  using targetQuality_cong [of s "initial\<lparr>player := Some p\<rparr>"]
  by (simp add: converged_def safeGetPlaybackQuality_def)

lemma hintFor_eq: "player s = Some p \<Longrightarrow> SetPlaybackQuality (targetQuality s) = hintFor p"
  using targetQuality_cong [of s "initial\<lparr>player := Some p\<rparr>"]
  by (simp add: hintFor_def)


lemma retry_is_retry:
  "wf s \<Longrightarrow> qualityRetryTimer s = Some i \<Longrightarrow> find (\<lambda>u. tid u = i) (timers s) = Some t \<Longrightarrow>
   cb t = RetryCb"
  using find_tid [of i "timers s" t] by (auto simp: wf_def list_all_iff)

lemma retry_handle_kept:
  "wf s \<Longrightarrow> qualityRetryTimer s = None \<Longrightarrow> kept (\<lambda>c. c = RetryCb) s = []"
  by (auto simp: wf_def kept_def list_all_iff filter_empty_conv)

lemma retry_tick_state:
  assumes "wf s" and "qualityRetryTimer s = Some i"
    and "find (\<lambda>u. tid u = i) (timers s) = Some t"
  shows "fire i (s\<lparr>player := Some p\<rparr>) =
     retryTick (s\<lparr>player := Some p, clock := max (clock s) (due t),
                 timers := reschedule t (timers s)\<rparr>)"
  using assms retry_is_retry [OF assms] by (simp add: fire_def runCallback_def)

lemma retry_converges:
  assumes "wf s" and "qualityRetryTimer s = Some i"
    and "find (\<lambda>u. tid u = i) (timers s) = Some t" and "converged p"
  shows "wf (fire i (s\<lparr>player := Some p\<rparr>)) \<and>
     qualityRetryTimer (fire i (s\<lparr>player := Some p\<rparr>)) = None \<and>
     kept (\<lambda>c. c = RetryCb) (fire i (s\<lparr>player := Some p\<rparr>)) = [] \<and>
     commands (fire i (s\<lparr>player := Some p\<rparr>)) = commands s"
proof -
  let ?s1 = "s\<lparr>player := Some p, clock := max (clock s) (due t), timers := reschedule t (timers s)\<rparr>"
  have w0: "wf (s\<lparr>player := Some p\<rparr>)" using assms(1) by simp
  have w1: "wf ?s1" using wf_reschedule [OF w0, where k = "max (clock s) (due t)" and t = t] by simp
  have c: "safeGetPlaybackQuality (?s1\<lparr>qualityRetryCount := Suc (qualityRetryCount s)\<rparr>)
      = Some (targetQuality (?s1\<lparr>qualityRetryCount := Suc (qualityRetryCount s)\<rparr>))"
    using assms(4) by (simp add: converged_iff)
  have e: "retryTick ?s1 = clearQualityRetry (?s1\<lparr>qualityRetryCount := Suc (qualityRetryCount s)\<rparr>)"
    using c by (simp add: retryTick_def Let_def)
  have w2: "wf (?s1\<lparr>qualityRetryCount := Suc (qualityRetryCount s)\<rparr>)" using w1 by simp
  show ?thesis
    unfolding retry_tick_state [OF assms(1-3)] e
    using wf_clearQualityRetry [OF w2] kept_retry_cleared [OF w2] by simp
qed




lemma retryRun_idle: "qualityRetryTimer s = None \<Longrightarrow> retryRun ps s = s"
  by (induction ps) simp_all

lemma find_snoc_fresh:
  "\<forall>u\<in>set ts. tid u \<noteq> tid t \<Longrightarrow> find (\<lambda>u. tid u = tid t) (ts @ [t]) = Some t"
  by (induction ts) simp_all

lemma enforce_arms:
  assumes "wf s" and "player s = Some pl"
  shows "wf (enforceLowQuality s) \<and>
     qualityRetryTimer (enforceLowQuality s) = Some (nextTimerId s) \<and>
     find (\<lambda>u. tid u = nextTimerId s) (timers (enforceLowQuality s))
       = Some \<lparr>tid = nextTimerId s, due = clock s + 1200, period = Some 1200, cb = RetryCb\<rparr> \<and>
     qualityRetryCount (enforceLowQuality s) = 0 \<and>
     commands (enforceLowQuality s) = commands s @ [hintFor pl, PlayVideo] \<and>
     statusText (enforceLowQuality s) =
       ''Requesting lower quality ('' @ mapOrSelf (targetQuality s) @ '')...''"
proof -
  let ?t = "\<lparr>tid = nextTimerId s, due = clock s + 1200, period = Some 1200, cb = RetryCb\<rparr>"
  have w1: "wf (clearQualityRetry s)" using assms(1) by (rule wf_clearQualityRetry)
  have "\<forall>u\<in>set (timers (clearQualityRetry s)). tid u \<noteq> tid ?t"
    using w1 by (auto simp: wf_def list_all_iff)
  then have f: "find (\<lambda>u. tid u = tid ?t) (timers (clearQualityRetry s) @ [?t]) = Some ?t"
    by (rule find_snoc_fresh)
  show ?thesis
    using wf_enforceLowQuality [OF assms(1)] f hintFor_eq [OF assms(2)]
    by (simp add: enforce_some [OF assms(2)])
qed













lemma demo_target: "player s = Some demoPlayer \<Longrightarrow> targetQuality s = ''small''"
  by (simp add: targetQuality_def getLowestAvailableQuality_def safeGetAvailableQualityLevels_def
      demoPlayer_def QUALITY_ORDER_def orElse_def)


lemmas quality_eval =
  targetQuality_def getLowestAvailableQuality_def safeGetAvailableQualityLevels_def
  safeGetPlaybackQuality_def QUALITY_ORDER_def orElse_def orText_def mapOrSelf_def
  qualityMap_def objectPrototype_def readableOf_def demoPlayer_def

lemma enforcing_eq: "toggleLowInternetMode playing = enforcing"
  by (simp add: enforcing_def playing_eq initial_def toggleLowInternetMode_def Let_def
      enforce_some [where pl = demoPlayer] monitor_eq clearQualityRetry_def
      clearQualityMonitor_def clearTimer_def quality_eval)





section \<open>After the retry loop has stopped\<close>

lemma hints_snoc [simp]:
  "filter isHint (xs @ [Destroy]) = filter isHint xs"
  by (simp add: isHint_def)

lemma loadButtonClick_retry: "qualityRetryTimer s = None \<Longrightarrow> qualityRetryTimer (loadButtonClick url s) = None"
  by (simp add: loadButtonClick_def Let_def createFacade_def)

lemma onPlayerStateChange_pause_frame:
  "d \<noteq> PLAYING \<Longrightarrow> qualityRetryTimer (onPlayerStateChange d s) = qualityRetryTimer s"
  "d \<noteq> PLAYING \<Longrightarrow> commands (onPlayerStateChange d s) = commands s"
  by (simp_all add: onPlayerStateChange_def Let_def case_prod_beta split: option.splits)

lemma onPlayerQualityChange_retry:
  "qualityRetryTimer s = None \<Longrightarrow> qualityRetryTimer (onPlayerQualityChange q s) = None"
  by (simp add: onPlayerQualityChange_def Let_def)

lemma runCallback_settled:
  "c \<noteq> RetryCb \<Longrightarrow> c \<noteq> ReadyCb \<Longrightarrow> qualityRetryTimer s = None \<Longrightarrow>
   qualityRetryTimer (runCallback c s) = None \<and>
   filter isHint (commands (runCallback c s)) = filter isHint (commands s)"
  by (cases c) (simp_all add: runCallback_def pauseDestroy_fields simEnd_error isHint_def)

lemma settled_step:
  assumes w: "wf s" and h: "qualityRetryTimer s = None" and k: "kept (\<lambda>c. c = ReadyCb) s = []"
    and st: "step e s = Some s'" and q: "\<not> arming e"
  shows "wf s' \<and> qualityRetryTimer s' = None \<and> kept (\<lambda>c. c = ReadyCb) s' = [] \<and>
         filter isHint (commands s') = filter isHint (commands s)"
proof -
  have w': "wf s'" using w st by (rule wf_step)
  have rest: "qualityRetryTimer s' = None \<and> kept (\<lambda>c. c = ReadyCb) s' = [] \<and>
         filter isHint (commands s') = filter isHint (commands s)"
  proof (cases e)
    case (LoadClick url)
    then show ?thesis using st w h k kept_loadButtonClick [of s "\<lambda>c. c = ReadyCb" url]
        loadButtonClick_retry [of s url]
      by (simp add: step_def) auto
  next
    case (FacadeClick p)
    then show ?thesis using st w h k
      by (auto simp: step_def kept_facadeClick split: container.splits)
  next
    case PlayerReady
    then show ?thesis using q by (simp add: arming_def)
  next
    case (StateChange d)
    then have "d \<noteq> PLAYING" using q by (simp add: arming_def)
    then show ?thesis using StateChange st w h k
        kept_onPlayerStateChange [of s "\<lambda>c. c = ReadyCb" d]
      by (auto simp: step_def onPlayerStateChange_pause_frame split: if_splits)
  next
    case (QualityChange x)
    then show ?thesis using st w h k kept_onPlayerQualityChange [of s "\<lambda>c. c = ReadyCb" x]
      by (auto simp: step_def onPlayerQualityChange_retry split: if_splits)
  next
    case QualityClick
    then show ?thesis using q by (simp add: arming_def)
  next
    case Simulate
    then show ?thesis using st w h k kept_simulate [of s "\<lambda>c. c = ReadyCb"]
      by (auto simp: step_def)
  next
    case (PlayerReports p)
    then show ?thesis using st w h k by (auto simp: step_def split: if_splits)
  next
    case (TimerFires j)
    from st TimerFires have en: "earliest j s" and s': "s' = fire j s"
      by (auto simp: step_def split: if_splits)
    from en obtain u where u: "find (\<lambda>t. tid t = j) (timers s) = Some u"
      by (auto simp: earliest_def split: option.splits)
    have uin: "u \<in> set (timers s)" using find_tid [OF u] by simp
    have nr: "cb u \<noteq> RetryCb" using w h uin by (auto simp: wf_def list_all_iff)
    have ny: "cb u \<noteq> ReadyCb"
    proof
      assume "cb u = ReadyCb"
      then have "u \<in> set (kept (\<lambda>c. c = ReadyCb) s)" using uin by (simp add: kept_mem)
      then show False using k by simp
    qed
    let ?s1 = "s\<lparr>clock := max (clock s) (due u), timers := reschedule u (timers s)\<rparr>"
    have e: "fire j s = runCallback (cb u) ?s1" using u by (rule fire_some)
    have "qualityRetryTimer ?s1 = None" using h by simp
    from runCallback_settled [OF nr ny this]
    show ?thesis
      using s' e w k u ny kept_fire [of s j u "\<lambda>c. c = ReadyCb"] by simp
  next
    case (At x)
    then show ?thesis using st w h k by (auto simp: step_def kept_def split: if_splits)
  qed
  show ?thesis using w' rest by simp
qed

lemma settled_exec:
  assumes "exec es s = Some s'" and "wf s" and "qualityRetryTimer s = None"
    and "kept (\<lambda>c. c = ReadyCb) s = []" and "\<forall>e\<in>set es. \<not> arming e"
  shows "filter isHint (commands s') = filter isHint (commands s)"
  using assms
proof (induction es arbitrary: s)
  case Nil
  then show ?case by simp
next
  case (Cons e es)
  from Cons.prems(1) obtain s1 where s1: "step e s = Some s1" and r: "exec es s1 = Some s'"
    by (auto split: option.splits)
  have "wf s1 \<and> qualityRetryTimer s1 = None \<and> kept (\<lambda>c. c = ReadyCb) s1 = [] \<and>
         filter isHint (commands s1) = filter isHint (commands s)"
    using settled_step [OF Cons.prems(2-4) s1] Cons.prems(5) by simp
  then show ?case using Cons.IH [OF r] Cons.prems(5) by simp
qed

text \<open>
  C3. Take any page on which the retry interval is armed (and no deferred start of
  enforcement is pending). If at a tick the player reports as applied the target
  recomputed from its available levels, that tick clears the interval and sends no
  hint. If low-internet mode is on and a quality-change signal carries the recomputed
  target, the handler clears the interval and sends no hint. Either way the loop is
  over: no retry timer stays queued, further ticks do not happen, and no quality hint is
  sent by anything that follows, as long as enforcement is not started anew (by a
  playing signal, a click on the quality button or a ready signal).
\<close>

theorem enforcement_stops_on_convergence:
  assumes "wf s" and "qualityRetryTimer s = Some i"
    and "find (\<lambda>u. tid u = i) (timers s) = Some t"
    and "kept (\<lambda>c. c = ReadyCb) s = []"
  shows
    "(converged p \<longrightarrow>
        qualityRetryTimer (fire i (s\<lparr>player := Some p\<rparr>)) = None \<and>
        kept (\<lambda>c. c = RetryCb) (fire i (s\<lparr>player := Some p\<rparr>)) = [] \<and>
        commands (fire i (s\<lparr>player := Some p\<rparr>)) = commands s \<and>
        (\<forall>qs. retryRun qs (fire i (s\<lparr>player := Some p\<rparr>)) = fire i (s\<lparr>player := Some p\<rparr>)) \<and>
        (\<forall>es s'. exec es (fire i (s\<lparr>player := Some p\<rparr>)) = Some s' \<and> (\<forall>e\<in>set es. \<not> arming e)
            \<longrightarrow> filter isHint (commands s') = filter isHint (commands s))) \<and>
     (lowBandwidthMode s \<longrightarrow>
        qualityRetryTimer (onPlayerQualityChange (targetQuality s) s) = None \<and>
        kept (\<lambda>c. c = RetryCb) (onPlayerQualityChange (targetQuality s) s) = [] \<and>
        commands (onPlayerQualityChange (targetQuality s) s) = commands s \<and>
        (\<forall>qs. retryRun qs (onPlayerQualityChange (targetQuality s) s)
            = onPlayerQualityChange (targetQuality s) s) \<and>
        (\<forall>es s'. exec es (onPlayerQualityChange (targetQuality s) s) = Some s' \<and>
            (\<forall>e\<in>set es. \<not> arming e)
            \<longrightarrow> filter isHint (commands s') = filter isHint (commands s)))"
proof (intro conjI impI)
  assume c: "converged p"
  let ?s' = "fire i (s\<lparr>player := Some p\<rparr>)"
  note R = retry_converges [OF assms(1-3) c]
  have w0: "wf (s\<lparr>player := Some p\<rparr>)" using assms(1) by simp
  have nr: "cb t \<noteq> ReadyCb" using retry_is_retry [OF assms(1-3)] by simp
  have k: "kept (\<lambda>c. c = ReadyCb) ?s' = []"
    using kept_fire [of "s\<lparr>player := Some p\<rparr>" i t "\<lambda>c. c = ReadyCb"] w0 assms(3,4) nr by simp
  show "qualityRetryTimer ?s' = None" using R by simp
  show "kept (\<lambda>c. c = RetryCb) ?s' = []" using R by simp
  show "commands ?s' = commands s" using R by simp
  show "\<forall>qs. retryRun qs ?s' = ?s'" using R by (simp add: retryRun_idle)
  show "\<forall>es s'. exec es ?s' = Some s' \<and> (\<forall>e\<in>set es. \<not> arming e)
            \<longrightarrow> filter isHint (commands s') = filter isHint (commands s)"
    using settled_exec [of _ ?s'] R k by auto
next
  assume m: "lowBandwidthMode s"
  let ?s' = "onPlayerQualityChange (targetQuality s) s"
  let ?s1 = "s\<lparr>statusText := ''Video quality changed to: '' @ orText (qualityMap (targetQuality s)) ''Auto''\<rparr>"
  have tq: "targetQuality ?s1 = targetQuality s" by (rule targetQuality_cong) simp
  have e: "?s' = clearQualityRetry ?s1"
    using m tq by (simp add: onPlayerQualityChange_def Let_def)
  have w1: "wf ?s1" using assms(1) by simp
  have w': "wf ?s'" using assms(1) by (rule wf_onPlayerQualityChange)
  have h: "qualityRetryTimer ?s' = None" unfolding e by simp
  have k: "kept (\<lambda>c. c = ReadyCb) ?s' = []"
    using kept_onPlayerQualityChange [of s "\<lambda>c. c = ReadyCb"] assms(1,4) by simp
  show "qualityRetryTimer ?s' = None" by (rule h)
  show "kept (\<lambda>c. c = RetryCb) ?s' = []" unfolding e using w1 by (rule kept_retry_cleared)
  show "commands ?s' = commands s" by simp
  show "\<forall>qs. retryRun qs ?s' = ?s'" using h by (simp add: retryRun_idle)
  show "\<forall>es s'. exec es ?s' = Some s' \<and> (\<forall>e\<in>set es. \<not> arming e)
            \<longrightarrow> filter isHint (commands s') = filter isHint (commands s)"
    using settled_exec [of _ ?s'] w' h k by auto
qed

lemma wf_enforcing: "wf enforcing"
  by (simp add: enforcing_def playing_eq initial_def wf_def fresh_def isPauseCb_def)

theorem enforcement_stops_on_convergence_witness:
  "wf enforcing \<and> qualityRetryTimer enforcing = Some 1 \<and>
   find (\<lambda>u. tid u = 1) (timers enforcing)
     = Some \<lparr>tid = 1, due = 1200, period = Some 1200, cb = RetryCb\<rparr> \<and>
   kept (\<lambda>c. c = ReadyCb) enforcing = [] \<and> converged settledPlayer \<and>
   lowBandwidthMode enforcing \<and> targetQuality enforcing = ''small'' \<and>
   qualityRetryTimer (fire 1 (enforcing\<lparr>player := Some settledPlayer\<rparr>)) = None \<and>
   commands (fire 1 (enforcing\<lparr>player := Some settledPlayer\<rparr>)) = commands enforcing \<and>
   qualityRetryTimer (onPlayerQualityChange ''small'' enforcing) = None \<and>
   commands (onPlayerQualityChange ''small'' enforcing) = commands enforcing"
proof -
  have h2: "qualityRetryTimer enforcing = Some 1" by (simp add: enforcing_def)
  have h3: "find (\<lambda>u. tid u = 1) (timers enforcing)
     = Some \<lparr>tid = 1, due = 1200, period = Some 1200, cb = RetryCb\<rparr>"
    by (simp add: enforcing_def)
  have h4: "kept (\<lambda>c. c = ReadyCb) enforcing = []" by (simp add: enforcing_def kept_def)
  have c: "converged settledPlayer"
    by (simp add: converged_def settledPlayer_def targetQuality_def getLowestAvailableQuality_def
        safeGetAvailableQualityLevels_def demoPlayer_def QUALITY_ORDER_def orElse_def)
  have m: "lowBandwidthMode enforcing" by (simp add: enforcing_def)
  have tq: "targetQuality enforcing = ''small''"
    by (rule demo_target) (simp add: enforcing_def playing_eq)
  note t = enforcement_stops_on_convergence [OF wf_enforcing h2 h3 h4, of settledPlayer]
  show ?thesis using wf_enforcing h2 h3 h4 c m tq t by simp
qed

section \<open>The simulated sequence and real enforcement\<close>

lemma simulate_eq:
  "simulateLowInternetExperience s =
     (clearQualityRetry s)\<lparr>lowBandwidthMode := False, simulateOverlay := True,
        buttonDisabled := True, buttonText := ''Simulating...'',
        statusText := ''Simulating low internet...'',
        timers := timers (clearQualityRetry s) @ simSteps (nextTimerId s) (clock s) (buttonText s),
        nextTimerId := nextTimerId s + 4\<rparr>"
  by (simp add: simulateLowInternetExperience_def Let_def setTimer_def createSimulateOverlay_def
      simSteps_def clearQualityRetry_def clearTimer_def split: option.splits)

lemma toggle_off_page:
  "player s = None \<Longrightarrow> \<not> lowBandwidthMode s \<Longrightarrow>
   qualityButtonClick s =
     (clearQualityMonitor s)\<lparr>lowBandwidthMode := True, buttonText := ''Disable Low Internet'',
        statusText := ''Low-internet mode ON. Will apply on playback.'',
        timers := timers (clearQualityMonitor s) @
          [\<lparr>tid = nextTimerId s, due = clock s + 700, period = Some 700, cb = MonitorCb\<rparr>],
        nextTimerId := Suc (nextTimerId s),
        qualityMonitorTimer := Some (nextTimerId s)\<rparr>"
  by (simp add: qualityButtonClick_def toggleLowInternetMode_def Let_def monitor_eq
      clearQualityMonitor_def clearTimer_def split: option.splits)

lemma loaded_eq: "loadButtonClick demoUrl initial = loaded"
  by (simp add: loadButtonClick_def demoUrl_id orElse_def Let_def createFacade_def
      clearQualityRetry_def clearQualityMonitor_def initial_def loaded_def)

lemma both_steps:
  "step (LoadClick demoUrl) initial = Some loaded"
  "step QualityClick loaded = Some armedEarly"
  "step (FacadeClick demoPlayer) armedEarly
     = Some (armedEarly\<lparr>player := Some demoPlayer, playerContainer := PlayerTarget\<rparr>)"
  "step PlayerReady (armedEarly\<lparr>player := Some demoPlayer, playerContainer := PlayerTarget\<rparr>)
     = Some readied"
  "step Simulate readied = Some simulated"
  "step (TimerFires 2) simulated = Some bothArmed"
proof -
  show "step (LoadClick demoUrl) initial = Some loaded" by (simp add: step_def loaded_eq)
  show "step QualityClick loaded = Some armedEarly"
    by (simp add: step_def toggle_off_page loaded_def initial_def armedEarly_def
        clearQualityMonitor_def)
  show "step (FacadeClick demoPlayer) armedEarly
     = Some (armedEarly\<lparr>player := Some demoPlayer, playerContainer := PlayerTarget\<rparr>)"
    by (simp add: step_def armedEarly_def loaded_def initial_def facadeClick_def createPlayer_def)
  show "step PlayerReady (armedEarly\<lparr>player := Some demoPlayer, playerContainer := PlayerTarget\<rparr>)
     = Some readied"
    by (simp add: step_def onPlayerReady_def Let_def demo_target send_def setTimer_def)
       (simp add: readied_def armedEarly_def loaded_def initial_def)
  show "step Simulate readied = Some simulated"
    by (simp add: step_def simulate_eq simulated_def)
       (simp add: readied_def armedEarly_def loaded_def initial_def clearQualityRetry_def)
  show "step (TimerFires 2) simulated = Some bothArmed"
    by (simp add: step_def earliest_def fire_def runCallback_def readyDeferred_def reschedule_def
        simulated_def simSteps_def readied_def armedEarly_def loaded_def initial_def
        send_def enforce_some [where pl = demoPlayer] monitor_eq clearQualityRetry_def
        clearQualityMonitor_def clearTimer_def quality_eval bothArmed_def)
qed

lemma narrated_steps:
  "step (TimerFires 3) bothArmed = Some narrated1"
  "step (TimerFires 8) narrated1 = Some narrated2"
  "step (TimerFires 7) narrated2 = Some narrated3"
  "step (TimerFires 4) narrated3 = Some narrated4"
proof -
  note base = bothArmed_def simulated_def readied_def armedEarly_def loaded_def initial_def
  note ev = step_def earliest_def fire_def runCallback_def reschedule_def simSteps_def
  show "step (TimerFires 3) bothArmed = Some narrated1"
    by (simp add: ev narrated1_def base)
  show "step (TimerFires 8) narrated1 = Some narrated2"
    by (simp add: ev narrated2_def narrated1_def base monitorTick_def quality_eval)
  show "step (TimerFires 7) narrated2 = Some narrated3"
    by (simp add: ev narrated3_def narrated2_def narrated1_def base retryTick_def Let_def
        send_def quality_eval)
  show "step (TimerFires 4) narrated3 = Some narrated4"
    by (simp add: ev narrated4_def narrated3_def narrated2_def narrated1_def base)
qed

lemma monitor_steps:
  "step QualityClick playing = Some clicked"
  "step Simulate clicked = Some monitorLeft"
  "step (TimerFires 3) monitorLeft = Some monitorWrote"
  "step (TimerFires 4) monitorWrote = Some sequenceWrote"
proof -
  note base = clicked_def enforcing_def playing_eq initial_def
  note ev = step_def earliest_def fire_def runCallback_def reschedule_def simSteps_def
  show "step QualityClick playing = Some clicked"
    by (simp add: step_def qualityButtonClick_def enforcing_eq Let_def monitor_eq)
       (simp add: base clearQualityMonitor_def clearTimer_def)
  show "step Simulate clicked = Some monitorLeft"
    by (simp add: step_def simulate_eq monitorLeft_def)
       (simp add: base clearQualityRetry_def clearTimer_def)
  show "step (TimerFires 3) monitorLeft = Some monitorWrote"
    by (simp add: ev monitorWrote_def monitorLeft_def base monitorTick_def quality_eval)
  show "step (TimerFires 4) monitorWrote = Some sequenceWrote"
    by (simp add: ev sequenceWrote_def monitorWrote_def monitorLeft_def base)
qed

text \<open>
  C5. The script does not keep the simulated sequence and real enforcement apart. Two
  runs show it.
  \<^item> Low-internet mode is switched on during playback and the simulated sequence is
    then started. The sequence cancels the retry interval and resets the mode flag, but
    the monitor interval started with enforcement stays queued: at 700 ms the monitor
    writes \<^verbatim>\<open>Quality: 720p\<close> over the narration of the sequence, and the first step of
    the sequence writes over that.
  \<^item> Low-internet mode is switched on before the facade is clicked; the player signals
    ready, which defers the start of enforcement by 150 ms; the sequence is started
    within those 150 ms; then the deferred start fires, although the mode flag is off by
    then. From there the retry interval (timer 7) is armed while the four steps of the
    sequence are queued, and the narration is written in turn by the sequence (700 ms),
    by the monitor (850 ms) and by the sequence again (1400 ms), with a quality hint of
    the retry loop in between (1350 ms).
\<close>

theorem sequence_and_enforcement_interleave:
  "exec [QualityClick, Simulate] playing = Some monitorLeft \<and>
   statusText monitorLeft = ''Simulating low internet...'' \<and>
   qualityMonitorTimer monitorLeft = Some 3 \<and>
   kept (\<lambda>c. c = MonitorCb) monitorLeft
     = [\<lparr>tid = 3, due = 700, period = Some 700, cb = MonitorCb\<rparr>] \<and>
   kept isSimCb monitorLeft = simSteps 4 0 ''Disable Low Internet'' \<and>
   exec [QualityClick, Simulate, TimerFires 3] playing = Some monitorWrote \<and>
   statusText monitorWrote = ''Quality: 720p'' \<and>
   exec [QualityClick, Simulate, TimerFires 3, TimerFires 4] playing = Some sequenceWrote \<and>
   statusText sequenceWrote = ''Diagnosing network...'' \<and>
   exec [LoadClick demoUrl, QualityClick, FacadeClick demoPlayer, PlayerReady, Simulate,
         TimerFires 2] initial = Some bothArmed \<and>
   lowBandwidthMode bothArmed = False \<and>
   qualityRetryTimer bothArmed = Some 7 \<and>
   kept (\<lambda>c. c = RetryCb) bothArmed = [\<lparr>tid = 7, due = 1350, period = Some 1200, cb = RetryCb\<rparr>] \<and>
   kept isSimCb bothArmed = simSteps 3 0 ''Disable Low Internet'' \<and>
   exec [TimerFires 3] bothArmed = Some narrated1 \<and>
   statusText narrated1 = ''Diagnosing network...'' \<and>
   exec [TimerFires 3, TimerFires 8] bothArmed = Some narrated2 \<and>
   statusText narrated2 = ''Quality: 720p'' \<and>
   exec [TimerFires 3, TimerFires 8, TimerFires 7] bothArmed = Some narrated3 \<and>
   commands narrated3 = commands bothArmed @ [SetPlaybackQuality ''small''] \<and>
   exec [TimerFires 3, TimerFires 8, TimerFires 7, TimerFires 4] bothArmed = Some narrated4 \<and>
   statusText narrated4 = ''Bandwidth detected: 420 kbps (simulated)''"
proof -
  have a: "exec [QualityClick, Simulate] playing = Some monitorLeft"
    "exec [QualityClick, Simulate, TimerFires 3] playing = Some monitorWrote"
    "exec [QualityClick, Simulate, TimerFires 3, TimerFires 4] playing = Some sequenceWrote"
    by (simp_all only: exec.simps monitor_steps option.simps)
  have b: "exec [LoadClick demoUrl, QualityClick, FacadeClick demoPlayer, PlayerReady, Simulate,
         TimerFires 2] initial = Some bothArmed"
    "exec [TimerFires 3] bothArmed = Some narrated1"
    "exec [TimerFires 3, TimerFires 8] bothArmed = Some narrated2"
    "exec [TimerFires 3, TimerFires 8, TimerFires 7] bothArmed = Some narrated3"
    "exec [TimerFires 3, TimerFires 8, TimerFires 7, TimerFires 4] bothArmed = Some narrated4"
    by (simp_all only: exec.simps both_steps narrated_steps option.simps)
  have c: "statusText monitorLeft = ''Simulating low internet...''"
    "qualityMonitorTimer monitorLeft = Some 3"
    "kept (\<lambda>c. c = MonitorCb) monitorLeft
       = [\<lparr>tid = 3, due = 700, period = Some 700, cb = MonitorCb\<rparr>]"
    "kept isSimCb monitorLeft = simSteps 4 0 ''Disable Low Internet''"
    "statusText monitorWrote = ''Quality: 720p''"
    "statusText sequenceWrote = ''Diagnosing network...''"
    by (simp_all add: sequenceWrote_def monitorWrote_def monitorLeft_def clicked_def kept_def
        simSteps_def isSimCb_def)
  have d: "lowBandwidthMode bothArmed = False" "qualityRetryTimer bothArmed = Some 7"
    "kept (\<lambda>c. c = RetryCb) bothArmed
       = [\<lparr>tid = 7, due = 1350, period = Some 1200, cb = RetryCb\<rparr>]"
    "kept isSimCb bothArmed = simSteps 3 0 ''Disable Low Internet''"
    "statusText narrated1 = ''Diagnosing network...''"
    "statusText narrated2 = ''Quality: 720p''"
    "commands narrated3 = commands bothArmed @ [SetPlaybackQuality ''small'']"
    "statusText narrated4 = ''Bandwidth detected: 420 kbps (simulated)''"
    by (simp_all add: bothArmed_def simulated_def kept_def simSteps_def isSimCb_def narrated1_def
        narrated2_def narrated3_def narrated4_def)
  show ?thesis by (intro conjI) (fact a b c d)+
qed

lemma not_sim_simps [simp]:
  "\<not> isSimCb RetryCb" "\<not> isSimCb MonitorCb" "\<not> isSimCb ReadyCb"
  "\<not> isSimCb (PauseDestroyCb d)" "isSimCb (SimStatusCb m)" "isSimCb (SimEndCb m)"
  by (simp_all add: isSimCb_def)

text \<open>
  What a start of the sequence reaches and what it leaves: the mode flag is reset, the
  retry interval is cancelled and the control is disabled, while the monitor interval and a
  pending deferred start of enforcement stay queued; and no way of starting enforcement
  removes a queued step of the sequence.
\<close>

lemma simulate_reach:
  assumes "wf s"
  shows
    "lowBandwidthMode (simulateLowInternetExperience s) = False \<and>
     qualityRetryTimer (simulateLowInternetExperience s) = None \<and>
     kept (\<lambda>c. c = RetryCb) (simulateLowInternetExperience s) = [] \<and>
     buttonDisabled (simulateLowInternetExperience s) \<and>
     qualityMonitorTimer (simulateLowInternetExperience s) = qualityMonitorTimer s \<and>
     kept (\<lambda>c. c = MonitorCb) (simulateLowInternetExperience s) = kept (\<lambda>c. c = MonitorCb) s \<and>
     kept (\<lambda>c. c = ReadyCb) (simulateLowInternetExperience s) = kept (\<lambda>c. c = ReadyCb) s \<and>
     kept isSimCb (simulateLowInternetExperience s)
       = kept isSimCb s @ simSteps (nextTimerId s) (clock s) (buttonText s) \<and>
     kept isSimCb (toggleLowInternetMode s) = kept isSimCb s \<and>
     kept isSimCb (qualityButtonClick s) = kept isSimCb s \<and>
     kept isSimCb (onPlayerStateChange PLAYING s) = kept isSimCb s \<and>
     kept isSimCb (readyDeferred s) = kept isSimCb s"
proof -
  have w: "wf (simulateLowInternetExperience s)" using assms by (rule wf_simulate)
  have r: "kept (\<lambda>c. c = RetryCb) (simulateLowInternetExperience s) = []"
    using w by (rule retry_handle_kept) simp
  have m: "qualityMonitorTimer (simulateLowInternetExperience s) = qualityMonitorTimer s"
    by (simp add: simulate_eq)
  have k: "kept isSimCb (simulateLowInternetExperience s)
       = kept isSimCb s @ simSteps (nextTimerId s) (clock s) (buttonText s)"
  proof -
    have "kept isSimCb (simulateLowInternetExperience s)
        = kept isSimCb (clearQualityRetry s) @ simSteps (nextTimerId s) (clock s) (buttonText s)"
      by (simp add: simulate_eq kept_def simSteps_def)
    then show ?thesis using kept_clearQualityRetry [of s isSimCb] assms by simp
  qed
  show ?thesis
    using assms r k m kept_toggle [of s isSimCb] kept_qualityButtonClick [of s isSimCb]
      kept_onPlayerStateChange [of s isSimCb PLAYING] kept_readyDeferred [of s isSimCb]
      kept_simulate [of s "\<lambda>c. c = MonitorCb"] kept_simulate [of s "\<lambda>c. c = ReadyCb"]
    by simp
qed

section \<open>The steps of the simulated sequence\<close>

lemma sim_steps:
  "step Simulate playing = Some (simStage 0)"
  "step (TimerFires 1) (simStage 0) = Some (simStage 1)"
  "step (TimerFires 2) (simStage 1) = Some (simStage 2)"
  "step (TimerFires 3) (simStage 2) = Some (simStage 3)"
  "step (TimerFires 4) (simStage 3) = Some simStuck"
proof -
  note ev = step_def earliest_def fire_def runCallback_def reschedule_def simSteps_def
    simStage_def playing_eq initial_def
  show "step Simulate playing = Some (simStage 0)"
    by (simp add: step_def simulate_eq simStage_def clearQualityRetry_def)
       (simp add: playing_eq initial_def)
  show "step (TimerFires 1) (simStage 0) = Some (simStage 1)" by (simp add: ev)
  show "step (TimerFires 2) (simStage 1) = Some (simStage 2)" by (simp add: ev)
  show "step (TimerFires 3) (simStage 2) = Some (simStage 3)" by (simp add: ev)
  show "step (TimerFires 4) (simStage 3) = Some simStuck"
    by (simp add: ev simEnd_error simStuck_def)
qed

lemma sim_end_raises:
  "find (\<lambda>t. tid t = i) (timers s) = Some t \<Longrightarrow> cb t = SimEndCb m \<Longrightarrow>
   fire i s = s\<lparr>clock := max (clock s) (due t), timers := reschedule t (timers s),
                uncaught := uncaught s @ [ReferenceError ''removeSimulateOverlay'']\<rparr>"
  by (simp add: fire_def runCallback_def simEnd_error)

lemma sim_end_draft:
  "simEndWith removeSimulateOverlay_draft m s =
     Inr (s\<lparr>simulateOverlay := False,
            statusText := ''Video quality changed to: 240p (simulated)'',
            buttonDisabled := False, buttonText := m\<rparr>)"
  by (simp add: simEndWith_def removeSimulateOverlay_draft_def)

text \<open>
  C6 does not hold of script.js. The sequence is started at time 0 on a page with a
  playing video. The control is disabled from then on and the narration changes at 0,
  700, 1400 and 2100 ms, as C6 says. The step at 3000 ms begins with a call of
  \<^verbatim>\<open>removeSimulateOverlay\<close>, which script.js does not declare: the call raises, and the
  step ends there. The overlay stays, the narration stays at the text of the 2100 ms
  step, and the control stays disabled under the label \<^verbatim>\<open>Simulating...\<close>. (With the
  remover of the earlier draft the step completes: \<open>sim_end_draft\<close>.)
\<close>

theorem sequence_last_step_raises:
  "exec [Simulate, TimerFires 1, TimerFires 2, TimerFires 3] playing = Some (simStage 3) \<and>
   clock (simStage 3) = 2100 \<and>
   statusText (simStage 3) = ''Applying lower resolution: 240p (simulated)'' \<and>
   exec [Simulate, TimerFires 1, TimerFires 2, TimerFires 3, TimerFires 4] playing
     = Some simStuck \<and>
   clock simStuck = 3000 \<and> simulateOverlay simStuck \<and> buttonDisabled simStuck \<and>
   buttonText simStuck = ''Simulating...'' \<and>
   statusText simStuck = ''Applying lower resolution: 240p (simulated)'' \<and>
   uncaught simStuck = [ReferenceError ''removeSimulateOverlay'']"
proof -
  have a: "exec [Simulate, TimerFires 1, TimerFires 2, TimerFires 3] playing = Some (simStage 3)"
    by (simp only: exec.simps sim_steps option.simps)
  have b: "exec [Simulate, TimerFires 1, TimerFires 2, TimerFires 3, TimerFires 4] playing
     = Some simStuck"
    by (simp only: exec.simps sim_steps option.simps)
  show ?thesis using a b by (simp add: simStage_def simStuck_def)
qed

section \<open>The matcher and the language of a pattern\<close>






















section \<open>The accepted link shapes\<close>



lemma queryMark_simps [simp]:
  "queryMark q \<Longrightarrow> q \<noteq> CHR ''/''" "queryMark q \<Longrightarrow> q \<noteq> CHR ''v''"
  "queryMark q \<Longrightarrow> q \<noteq> CHR ''=''"
  by (auto simp: queryMark_def)
























section \<open>Loading another video during a session\<close>






end
